theory Spec2Isabelle
  imports Main
begin

section \<open>JavaScript values used by the routes\<close>

text \<open>
  Strings are modelled as \<open>string\<close> over ASCII. A value of type \<open>string | null\<close>
  is a \<open>string option\<close>; \<open>!x\<close> holds for \<open>null\<close>, \<open>undefined\<close> and the empty string.
\<close>

definition falsy :: "string option \<Rightarrow> bool" where
  "falsy x = (case x of None \<Rightarrow> True | Some v \<Rightarrow> v = [])"

text \<open>
  A JavaScript number is a double. Of the numbers only integers occur here, so a finite
  number is modelled by the integer it equals. The integers up to \<open>2 ^ 53 - 1\<close> in
  magnitude are the safe integers (\<open>Number.isSafeInteger\<close>): each is a double and no
  two of them share one.
\<close>

definition isSafeInteger :: "int \<Rightarrow> bool" where
  "isSafeInteger n = (\<bar>n\<bar> \<le> 2 ^ 53 - 1)"

text \<open>
  The double nearest to an integer that is not negative, ties to the even significand:
  below \<open>2 ^ 53\<close> the integer itself, else its leading 53 bits, rounded, times the power
  of two cut off. From \<open>2 ^ 1024\<close> on the result is \<open>Infinity\<close>, modelled as \<open>None\<close>.
\<close>

function bitLength :: "int \<Rightarrow> nat" where
  "bitLength n = (if n \<le> 0 then 0 else Suc (bitLength (n div 2)))"
  by pat_completeness auto
termination
  by (relation "measure nat") auto

definition roundToDouble :: "int \<Rightarrow> int option" where
  "roundToDouble m =
     (if m < 2 ^ 53 then Some m
      else
        (let e = bitLength m - 53;
             q = m div 2 ^ e;
             r = m mod 2 ^ e;
             h = 2 ^ (e - 1);
             q' = (if h < r \<or> (r = h \<and> odd q) then q + 1 else q)
         in if 2 ^ 1024 \<le> q' * 2 ^ e then None else Some (q' * 2 ^ e)))"

text \<open>The double nearest to an integer: the sign is kept.\<close>

definition toDouble :: "int \<Rightarrow> int option" where
  "toDouble i = map_option (\<lambda>m. sgn i * m) (roundToDouble \<bar>i\<bar>)"

text \<open>
  \<open>parseInt(s, 10)\<close>: leading white space is skipped, one sign is read, then the longest
  run of decimal digits; whatever follows the digits is ignored. \<open>mathInt\<close> is the
  integer these digits denote, with the sign; without a digit there is none and the
  result is \<open>NaN\<close>. The result is the double nearest to that integer (for more than 20
  significant digits an engine may round from the first 20 alone). \<open>None\<close> stands for
  the results that are not finite, \<open>NaN\<close> and the infinities.
\<close>

definition isWhiteSpace :: "char \<Rightarrow> bool" where
  "isWhiteSpace c = (of_char c \<in> {9, 10, 11, 12, 13, 32 :: nat})"

definition isDigit :: "char \<Rightarrow> bool" where
  "isDigit c = (48 \<le> (of_char c :: nat) \<and> (of_char c :: nat) \<le> 57)"

definition digitValue :: "char \<Rightarrow> int" where
  "digitValue c = int (of_char c) - 48"

definition digitsValue :: "string \<Rightarrow> int" where
  "digitsValue ds = foldl (\<lambda>acc c. acc * 10 + digitValue c) 0 ds"

definition parseDigits :: "string \<Rightarrow> int option" where
  "parseDigits s =
     (let ds = takeWhile isDigit s in if ds = [] then None else Some (digitsValue ds))"

definition mathInt :: "string \<Rightarrow> int option" where
  "mathInt s =
     (case dropWhile isWhiteSpace s of
        [] \<Rightarrow> None
      | c # cs \<Rightarrow>
          if c = CHR ''-'' then map_option uminus (parseDigits cs)
          else if c = CHR ''+'' then parseDigits cs
          else parseDigits (c # cs))"

definition parseInt :: "string \<Rightarrow> int option" where
  "parseInt s = Option.bind (mathInt s) toDouble"

section \<open>The settings store (D1)\<close>

text \<open>
  A row of the table \<open>form_settings\<close>. The column \<open>id\<close> is called \<open>row_id\<close> here.
\<close>

record FormSettings =
  row_id :: string
  form_id :: string
  notification_email :: "string option"
  notification_email_password :: "string option"
  smtp_host :: "string option"
  smtp_port :: "int option"
  smtp_secure :: int
  updated_at :: int

text \<open>
  The database: the ids of the rows of \<open>forms\<close> (the only column the routes read) and the
  rows of \<open>form_settings\<close> in table order.
\<close>

record d1 =
  forms :: "string list"
  form_settings :: "FormSettings list"

text \<open>
  What a request handler sees besides the request: the database, the clock (\<open>Date.now()\<close>),
  the identifier \<open>crypto.randomUUID()\<close> returns, and which database call of this request
  throws, if any (calls are numbered from 0 in the order the handler makes them). A call
  that throws leaves the database as it was.
\<close>

record env =
  db :: d1
  fault :: "nat option"
  now :: int
  uuid :: string

definition throws :: "env \<Rightarrow> nat \<Rightarrow> bool" where
  "throws e k = (fault e = Some k)"

datatype exn = D1Error | BodyError | MailerError | TypeError

text \<open>The JSON body and status of \<open>data(body, {status})\<close>.\<close>

record response =
  status :: nat
  success :: bool
  error :: "string option"
  messageId :: "string option"

definition ok :: response where
  "ok = \<lparr>status = 200, success = True, error = None, messageId = None\<rparr>"

definition failure :: "nat \<Rightarrow> string \<Rightarrow> response" where
  "failure st msg = \<lparr>status = st, success = False, error = Some msg, messageId = None\<rparr>"

text \<open>
  A request: its method and its form data (\<open>None\<close> when \<open>request.formData()\<close> rejects).
  \<open>formData.get\<close> returns the first value of a name, or \<open>null\<close>; only string values
  are modelled.
\<close>

record request =
  "method" :: string
  body :: "(string \<times> string) list option"

definition formData_get :: "(string \<times> string) list \<Rightarrow> string \<Rightarrow> string option" where
  "formData_get fd name = map_of fd name"

subsection \<open>loader of forms.$formId.settings\<close>

text \<open>\<open>SELECT * FROM form_settings WHERE form_id = ?\<close>, \<open>.first()\<close>.\<close>

definition first_settings :: "d1 \<Rightarrow> string \<Rightarrow> FormSettings option" where
  "first_settings d formId = find (\<lambda>r. form_id r = formId) (form_settings d)"


subsection \<open>action of forms.$formId.settings.notifications\<close>

text \<open>\<open>SELECT id FROM forms WHERE id = ?\<close>, \<open>.first()\<close>, tested with \<open>!form\<close>.\<close>

definition form_exists :: "d1 \<Rightarrow> string \<Rightarrow> bool" where
  "form_exists d formId = (formId \<in> set (forms d))"

text \<open>\<open>DELETE FROM form_settings WHERE form_id = ?\<close>\<close>

definition delete_settings :: "d1 \<Rightarrow> string \<Rightarrow> d1" where
  "delete_settings d formId =
     d\<lparr>form_settings := filter (\<lambda>r. form_id r \<noteq> formId) (form_settings d)\<rparr>"

text \<open>
  The \<open>SET\<close> clause of \<open>UPDATE form_settings SET ... WHERE form_id = ?\<close>: the five
  bound values and \<open>smtp_secure = 1\<close>. A port that is not finite is bound as \<open>NULL\<close>.
\<close>

definition set_columns ::
  "string \<Rightarrow> string \<Rightarrow> string \<Rightarrow> int option \<Rightarrow> int \<Rightarrow> FormSettings \<Rightarrow> FormSettings" where
  "set_columns em pw host port updatedAt r =
     r\<lparr>notification_email := Some em,
       notification_email_password := Some pw,
       smtp_host := Some host,
       smtp_port := port,
       smtp_secure := 1,
       updated_at := updatedAt\<rparr>"

text \<open>The \<open>UPDATE\<close> changes every row of the form and no other row.\<close>

definition update_settings ::
  "d1 \<Rightarrow> string \<Rightarrow> string \<Rightarrow> string \<Rightarrow> string \<Rightarrow> int option \<Rightarrow> int \<Rightarrow> d1" where
  "update_settings d formId em pw host port updatedAt =
     d\<lparr>form_settings :=
         map (\<lambda>r. if form_id r = formId then set_columns em pw host port updatedAt r else r)
             (form_settings d)\<rparr>"

text \<open>\<open>INSERT INTO form_settings (...) VALUES (?, ?, ?, ?, ?, ?, 1, ?)\<close>\<close>

definition insert_settings ::
  "d1 \<Rightarrow> string \<Rightarrow> string \<Rightarrow> string \<Rightarrow> string \<Rightarrow> string \<Rightarrow> int option \<Rightarrow> int \<Rightarrow> d1" where
  "insert_settings d settingsId formId em pw host port updatedAt =
     d\<lparr>form_settings := form_settings d @
         [\<lparr>row_id = settingsId, form_id = formId,
           notification_email = Some em,
           notification_email_password = Some pw,
           smtp_host = Some host,
           smtp_port = port,
           smtp_secure = 1,
           updated_at = updatedAt\<rparr>]\<rparr>"

text \<open>
  The POST branch after the form data is read. Database call 1 is the lookup of the
  existing row, call 2 the \<open>UPDATE\<close> or \<open>INSERT\<close>. Every exception inside the
  \<open>try\<close> yields the 500 response.
\<close>

definition save_settings ::
  "env \<Rightarrow> (string \<times> string) list \<Rightarrow> string \<Rightarrow> response \<times> d1" where
  "save_settings e fd formId =
     (let notification_email = formData_get fd ''notification_email'';
          notification_email_password = formData_get fd ''notification_email_password'';
          smtp_host = formData_get fd ''smtp_host'';
          smtp_port = formData_get fd ''smtp_port''
      in if falsy notification_email \<or> falsy notification_email_password
            \<or> falsy smtp_host \<or> falsy smtp_port
         then (failure 400 ''Missing required fields'', db e)
         else if throws e 1 then (failure 500 ''Failed to save settings'', db e)
         else
           (let existingSettings = first_settings (db e) formId;
                updatedAt = now e
            in if throws e 2 then (failure 500 ''Failed to save settings'', db e)
               else if existingSettings \<noteq> None
               then (ok, update_settings (db e) formId
                           (the notification_email) (the notification_email_password)
                           (the smtp_host) (parseInt (the smtp_port)) updatedAt)
               else (ok, insert_settings (db e) (uuid e) formId
                           (the notification_email) (the notification_email_password)
                           (the smtp_host) (parseInt (the smtp_port)) updatedAt)))"

text \<open>
  The whole action. Database call 0, the lookup of the form, is outside the \<open>try\<close>
  blocks: when it throws, the exception leaves the action (\<open>Inl\<close>).
\<close>

definition action :: "env \<Rightarrow> request \<Rightarrow> string \<Rightarrow> (exn + response) \<times> d1" where
  "action e req formId =
     (if throws e 0 then (Inl D1Error, db e)
      else if \<not> form_exists (db e) formId
      then (Inr (failure 404 ''Form not found''), db e)
      else if method req = ''DELETE''
      then (if throws e 1 then (Inr (failure 500 ''Failed to clear settings''), db e)
            else (Inr ok, delete_settings (db e) formId))
      else if method req \<noteq> ''POST''
      then (Inr (failure 405 ''Method not allowed''), db e)
      else (case body req of
              None \<Rightarrow> (Inr (failure 500 ''Failed to save settings''), db e)
            | Some fd \<Rightarrow> (let (r, d) = save_settings e fd formId in (Inr r, d))))"

subsection \<open>action of forms.$formId.settings.notifications.test\<close>

text \<open>
  \<open>sendTestEmail\<close> lives in \<open>~/lib/email.server\<close> and is a parameter here: given the
  configuration it returns a message id or an error text, or throws (\<open>None\<close>).
\<close>

record smtp_params =
  p_notification_email :: string
  p_notification_email_password :: string
  p_smtp_host :: string
  p_smtp_port :: "int option"

datatype send_result = Sent "string option" | NotSent "string option"

type_synonym mailer = "smtp_params \<Rightarrow> send_result option"

text \<open>
  The action returns its response and the list of configurations handed to
  \<open>sendTestEmail\<close>. It never writes to the database.
\<close>

definition test_action ::
  "mailer \<Rightarrow> env \<Rightarrow> request \<Rightarrow> string \<Rightarrow> response \<times> smtp_params list" where
  "test_action sendTestEmail e req formId =
     (if method req \<noteq> ''POST'' then (failure 405 ''Method not allowed'', [])
      else if throws e 0 then (failure 500 ''Failed to send test email'', [])
      else if \<not> form_exists (db e) formId then (failure 404 ''Form not found'', [])
      else (case body req of
              None \<Rightarrow> (failure 500 ''Failed to send test email'', [])
            | Some fd \<Rightarrow>
                (let notification_email = formData_get fd ''notification_email'';
                     notification_email_password = formData_get fd ''notification_email_password'';
                     smtp_host = formData_get fd ''smtp_host'';
                     smtp_port = formData_get fd ''smtp_port''
                 in if falsy notification_email \<or> falsy notification_email_password
                       \<or> falsy smtp_host \<or> falsy smtp_port
                    then (failure 400 ''Missing required fields'', [])
                    else
                      (let params = \<lparr>p_notification_email = the notification_email,
                                     p_notification_email_password = the notification_email_password,
                                     p_smtp_host = the smtp_host,
                                     p_smtp_port = parseInt (the smtp_port)\<rparr>
                       in case sendTestEmail params of
                            None \<Rightarrow> (failure 500 ''Failed to send test email'', [params])
                          | Some (Sent mid) \<Rightarrow> (ok\<lparr>messageId := mid\<rparr>, [params])
                          | Some (NotSent err) \<Rightarrow>
                              (\<lparr>status = 400, success = False, error = err, messageId = None\<rparr>,
                               [params])))))"

section \<open>The settings page (forms.$formId.settings)\<close>

subsection \<open>Provider table and domain extraction\<close>

text \<open>
  The values of \<open>SMTP_CONFIGS\<close>. The hint texts are display-only; their arrows are
  written \<open>->\<close> here.
\<close>

record smtp_config =
  host :: string
  port :: int
  secure :: bool
  hint :: string

text \<open>
  \<open>SMTP_CONFIGS\<close> is an object literal, so the property read \<open>SMTP_CONFIGS[domain]\<close>
  finds the five own properties and, for any other key, the members inherited from
  \<open>Object.prototype\<close>. The key is always lower case (see \<open>getEmailDomain\<close>); of the
  inherited names only \<open>constructor\<close> (the function \<open>Object\<close>) and \<open>__proto__\<close>
  (the object \<open>Object.prototype\<close>) are lower case. Both values are truthy and have no
  \<open>host\<close>, \<open>port\<close> or \<open>hint\<close>. Every other key reads \<open>undefined\<close>.
\<close>

datatype member = Profile smtp_config | ObjectFunction | ObjectPrototype | Undefined

definition SMTP_CONFIGS :: "string \<Rightarrow> member" where
  "SMTP_CONFIGS domain =
     (if domain = ''gmail.com'' then Profile
        \<lparr>host = ''smtp.gmail.com'', port = 587, secure = True,
         hint = ''For Gmail, use an App Password instead of your regular password. Go to Google Account -> Security -> 2-Step Verification -> App passwords.''\<rparr>
      else if domain = ''outlook.com'' then Profile
        \<lparr>host = ''smtp-mail.outlook.com'', port = 587, secure = True,
         hint = ''For Outlook, use your regular Microsoft account password or an App Password if you have 2FA enabled.''\<rparr>
      else if domain = ''hotmail.com'' then Profile
        \<lparr>host = ''smtp-mail.outlook.com'', port = 587, secure = True,
         hint = ''For Hotmail, use your regular Microsoft account password or an App Password if you have 2FA enabled.''\<rparr>
      else if domain = ''yahoo.com'' then Profile
        \<lparr>host = ''smtp.mail.yahoo.com'', port = 587, secure = True,
         hint = ''For Yahoo, generate an App Password at: Account Info -> Account Security -> Generate app password.''\<rparr>
      else if domain = ''icloud.com'' then Profile
        \<lparr>host = ''smtp.mail.me.com'', port = 587, secure = True,
         hint = ''For iCloud, use an App-Specific Password. Go to appleid.apple.com -> Sign-In and Security -> App-Specific Passwords.''\<rparr>
      else if domain = ''constructor'' then ObjectFunction
      else if domain = ''__proto__'' then ObjectPrototype
      else Undefined)"

text \<open>
  In a regular expression \<open>.\<close> matches every character but a line terminator
  (line feed and carriage return in ASCII).
\<close>

definition isLineTerminator :: "char \<Rightarrow> bool" where
  "isLineTerminator c = (c = CHR 0x0A \<or> c = CHR 0x0D)"

text \<open>
  \<open>email.match(/@(.+)$/)\<close>, capture group 1. The matcher tries the start positions from
  left to right. At a position that holds \<open>@\<close>, \<open>(.+)\<close> has to reach the end of the
  string (without the \<open>m\<close> flag \<open>$\<close> matches there only), so the rest of the string must be
  non-empty and free of line terminators; then the rest is the capture.
\<close>

fun match_domain :: "string \<Rightarrow> string option" where
  "match_domain [] = None"
| "match_domain (c # cs) =
     (if c = CHR ''@'' \<and> cs \<noteq> [] \<and> \<not> list_ex isLineTerminator cs then Some cs
      else match_domain cs)"

text \<open>\<open>toLowerCase\<close>, on the letters of ASCII.\<close>

definition lowerChar :: "char \<Rightarrow> char" where
  "lowerChar c =
     (if 65 \<le> (of_char c :: nat) \<and> (of_char c :: nat) \<le> 90
      then char_of ((of_char c :: nat) + 32) else c)"

definition toLowerCase :: "string \<Rightarrow> string" where
  "toLowerCase s = map lowerChar s"

definition getEmailDomain :: "string \<Rightarrow> string option" where
  "getEmailDomain email' =
     (case match_domain email' of None \<Rightarrow> None | Some m \<Rightarrow> Some (toLowerCase m))"

text \<open>
  \<open>Number.prototype.toString\<close> on a safe integer: its decimal digits. (A larger double
  prints the shortest digits that identify it, padded with zeros or with an exponent; that
  is not modelled, and the statements about a printed port assume a safe integer. The
  ports of the provider table are 587.)
\<close>

definition digitChar :: "int \<Rightarrow> char" where
  "digitChar n = char_of (48 + n)"

function digits :: "int \<Rightarrow> string" where
  "digits n = (if n < 10 then [digitChar n] else digits (n div 10) @ [digitChar (n mod 10)])"
  by pat_completeness auto
termination
  by (relation "measure nat") auto

definition toString :: "int \<Rightarrow> string" where
  "toString i = (if i < 0 then CHR ''-'' # digits (- i) else digits i)"

text \<open>\<open>x || ""\<close> for \<open>x\<close> a string, \<open>null\<close> or \<open>undefined\<close>.\<close>

definition or_empty :: "string option \<Rightarrow> string" where
  "or_empty x = (case x of None \<Rightarrow> [] | Some v \<Rightarrow> v)"

subsection \<open>State of the component\<close>

datatype fetcher_state = Idle | Submitting | Loading

text \<open>What \<open>useFetcher()\<close> exposes: \<open>state\<close> and \<open>data\<close> (\<open>None\<close> is \<open>undefined\<close>).\<close>

record fetcher_view =
  state :: fetcher_state
  data :: "response option"

text \<open>\<open>f.data?.success\<close> as a condition.\<close>

definition data_success :: "fetcher_view \<Rightarrow> bool" where
  "data_success f = (case data f of None \<Rightarrow> False | Some r \<Rightarrow> success r)"

text \<open>
  The state \<open>smtpConfig\<close>: \<open>null\<close>, a profile of the table, or another object (the
  \<open>{}\<close> that \<open>Object(null)\<close> returns, or \<open>Object.prototype\<close>), which is truthy and has
  no \<open>hint\<close>.
\<close>

datatype config_state = NoConfig | Matched smtp_config | OtherObject

text \<open>
  The loader data, the eight \<open>useState\<close> cells, the three fetchers, and the pending
  debounce timeout with the \<open>domain\<close> and \<open>settings\<close> its closure has captured.
  \<open>smtpHost\<close> can become \<open>undefined\<close> (\<open>None\<close>), see \<open>timeout_callback\<close>.
\<close>

record controller =
  settings :: "FormSettings option"
  email :: string
  password :: string
  smtpHost :: "string option"
  smtpPort :: string
  emailDomain :: "string option"
  smtpConfig :: config_state
  testPassed :: bool
  testResultValid :: bool
  fetcher :: fetcher_view
  testFetcher :: fetcher_view
  clearFetcher :: fetcher_view
  timer :: "(string \<times> FormSettings option) option"

text \<open>
  The value a table lookup leaves in \<open>smtpConfig\<close> when it is passed to \<open>useState\<close>:
  a function is called as the lazy initialiser, and \<open>Object()\<close> returns \<open>{}\<close>.
\<close>

definition initial_config :: "member \<Rightarrow> config_state" where
  "initial_config m =
     (case m of Profile c \<Rightarrow> Matched c | ObjectFunction \<Rightarrow> OtherObject
      | ObjectPrototype \<Rightarrow> OtherObject | Undefined \<Rightarrow> NoConfig)"

text \<open>The first render: the \<open>useState\<close> initialisers, lines 89 to 102.\<close>

definition initial :: "FormSettings option \<Rightarrow> controller" where
  "initial st =
     (let initialEmail = or_empty (Option.bind st notification_email);
          initialDomain = getEmailDomain initialEmail;
          initialConfig = (if falsy initialDomain then NoConfig
                           else initial_config (SMTP_CONFIGS (the initialDomain)))
      in \<lparr>settings = st,
          email = or_empty (Option.bind st notification_email),
          password = or_empty (Option.bind st notification_email_password),
          smtpHost = Some (or_empty (Option.bind st smtp_host)),
          smtpPort = or_empty (map_option toString (Option.bind st smtp_port)),
          emailDomain = initialDomain,
          smtpConfig = initialConfig,
          testPassed = False,
          testResultValid = True,
          fetcher = \<lparr>state = Idle, data = None\<rparr>,
          testFetcher = \<lparr>state = Idle, data = None\<rparr>,
          clearFetcher = \<lparr>state = Idle, data = None\<rparr>,
          timer = None\<rparr>)"

subsection \<open>Derived values and what is rendered\<close>

text \<open>
  \<open>testSuccess\<close>, as a condition. (The JavaScript value is \<open>false\<close>, \<open>undefined\<close> or
  \<open>true\<close>; the first two are both falsy.)
\<close>

definition testSuccess :: "controller \<Rightarrow> bool" where
  "testSuccess s =
     (state (testFetcher s) = Idle \<and> data_success (testFetcher s) \<and> testResultValid s)"

text \<open>\<open>{emailDomain && (...)}\<close>: password, host, port and the buttons.\<close>

definition smtp_section_rendered :: "controller \<Rightarrow> bool" where
  "smtp_section_rendered s = (\<not> falsy (emailDomain s))"

text \<open>\<open>{!smtpConfig && (...)}\<close> inside that section: the host and port inputs.\<close>

definition host_port_editable :: "controller \<Rightarrow> bool" where
  "host_port_editable s = (smtp_section_rendered s \<and> smtpConfig s = NoConfig)"

text \<open>\<open>disabled={!testPassed}\<close> on the Save Settings button.\<close>

definition save_disabled :: "controller \<Rightarrow> bool" where
  "save_disabled s = (\<not> testPassed s)"

subsection \<open>Effects\<close>

text \<open>
  The body of the detection effect, run for the render \<open>r\<close>; \<open>a\<close> collects the state
  updates of the commit. A domain starts the timeout; no domain clears the detection.
\<close>

definition detect_effect :: "controller \<Rightarrow> controller \<Rightarrow> controller" where
  "detect_effect r a =
     (let domain = getEmailDomain (email r)
      in if falsy domain then a\<lparr>emailDomain := None, smtpConfig := NoConfig\<rparr>
         else a\<lparr>timer := Some (the domain, settings r)\<rparr>)"

text \<open>
  The callback of the timeout. With a truthy table entry it stores the entry and its
  host and port. For the two inherited members \<open>setSmtpConfig\<close> and \<open>setSmtpHost\<close>
  have been called when \<open>config.port.toString()\<close> throws the \<open>TypeError\<close>: React calls
  the function \<open>Object\<close> as an updater (\<open>Object(null)\<close> is \<open>{}\<close>, \<open>Object(x)\<close> is \<open>x\<close>
  for an object), and \<open>config.host\<close> is \<open>undefined\<close>. The state updates made before the
  exception are applied.
\<close>

definition timeout_callback ::
  "string \<Rightarrow> FormSettings option \<Rightarrow> controller \<Rightarrow> exn option \<times> controller" where
  "timeout_callback domain st s =
     (case SMTP_CONFIGS domain of
        Profile config \<Rightarrow>
          (None, s\<lparr>emailDomain := Some domain, smtpConfig := Matched config,
                   smtpHost := Some (host config), smtpPort := toString (port config)\<rparr>)
      | ObjectFunction \<Rightarrow>
          (Some TypeError,
           s\<lparr>emailDomain := Some domain,
             smtpConfig := (if smtpConfig s = NoConfig then OtherObject else smtpConfig s),
             smtpHost := None\<rparr>)
      | ObjectPrototype \<Rightarrow>
          (Some TypeError,
           s\<lparr>emailDomain := Some domain, smtpConfig := OtherObject, smtpHost := None\<rparr>)
      | Undefined \<Rightarrow>
          (None,
           if falsy (Option.bind st smtp_host)
           then s\<lparr>emailDomain := Some domain, smtpConfig := NoConfig,
                  smtpHost := Some [], smtpPort := []\<rparr>
           else s\<lparr>emailDomain := Some domain, smtpConfig := NoConfig\<rparr>))"

text \<open>Track when the test succeeds.\<close>

definition test_effect :: "controller \<Rightarrow> controller \<Rightarrow> controller" where
  "test_effect r a = (if testSuccess r then a\<lparr>testPassed := True\<rparr> else a)"

text \<open>Reset the test status when a field changes.\<close>

definition field_effect :: "controller \<Rightarrow> controller" where
  "field_effect a = a\<lparr>testPassed := False, testResultValid := False\<rparr>"

text \<open>Handle a successful clear.\<close>

definition clear_effect :: "controller \<Rightarrow> controller \<Rightarrow> controller" where
  "clear_effect r a =
     (if state (clearFetcher r) = Idle \<and> data_success (clearFetcher r)
      then a\<lparr>email := [], password := [], smtpHost := Some [], smtpPort := [],
             emailDomain := None, smtpConfig := NoConfig,
             testPassed := False, testResultValid := False\<rparr>
      else a)"

text \<open>
  The dependency arrays. \<open>settings?.smtp_host\<close> is \<open>undefined\<close> without settings,
  else the column. Fetcher data is compared by value here.
\<close>

definition detect_deps :: "controller \<Rightarrow> string \<times> string option option" where
  "detect_deps s = (email s, map_option smtp_host (settings s))"

definition field_deps :: "controller \<Rightarrow> string \<times> string \<times> string option \<times> string" where
  "field_deps s = (email s, password s, smtpHost s, smtpPort s)"

definition clear_deps :: "controller \<Rightarrow> fetcher_state \<times> response option" where
  "clear_deps s = (state (clearFetcher s), data (clearFetcher s))"

text \<open>
  One commit after the render \<open>r\<close>, the render before it being \<open>prev\<close>: the effects whose
  dependencies changed run in source order, each on the values of \<open>r\<close>, and their state
  updates are applied in that order. Before the detection effect runs again its cleanup
  clears the pending timeout.
\<close>

definition run_effects :: "controller \<Rightarrow> controller \<Rightarrow> controller" where
  "run_effects prev r =
     (let a1 = (if detect_deps r \<noteq> detect_deps prev
                then detect_effect r (r\<lparr>timer := None\<rparr>) else r);
          a2 = (if testSuccess r \<noteq> testSuccess prev then test_effect r a1 else a1);
          a3 = (if field_deps r \<noteq> field_deps prev then field_effect a2 else a2);
          a4 = (if clear_deps r \<noteq> clear_deps prev then clear_effect r a3 else a3)
      in a4)"

text \<open>On mount every effect runs.\<close>

definition mount_effects :: "controller \<Rightarrow> controller" where
  "mount_effects r = clear_effect r (field_effect (test_effect r (detect_effect r r)))"

text \<open>
  The number of dependency arrays that differ between two renders, weighted so that it
  falls from one commit to the next.
\<close>

definition pending :: "controller \<times> controller \<Rightarrow> nat" where
  "pending pr =
     (if clear_deps (snd pr) \<noteq> clear_deps (fst pr) then 4 else 0)
   + (if field_deps (snd pr) \<noteq> field_deps (fst pr) \<or> detect_deps (snd pr) \<noteq> detect_deps (fst pr)
      then 2 else 0)
   + (if testSuccess (snd pr) \<noteq> testSuccess (fst pr) then 1 else 0)"

text \<open>
  After a commit that changed state React renders again and runs the effects whose
  dependencies changed since the render before; this repeats until a commit changes
  nothing.
\<close>

function settle :: "controller \<Rightarrow> controller \<Rightarrow> controller" where
  "settle prev r =
     (let nxt = run_effects prev r in if nxt = r then r else settle r nxt)"
  by pat_completeness auto
termination
proof (relation "measure pending")
  show "wf (measure pending)" by simp
next
  fix prev r nxt
  assume nxt: "nxt = run_effects prev r" and changed: "nxt \<noteq> r"
  have cd: "clear_deps nxt = clear_deps r"
    by (simp add: nxt run_effects_def Let_def clear_deps_def clear_effect_def field_effect_def
        test_effect_def detect_effect_def)
  have "pending (r, nxt) < pending (prev, r)"
  proof (cases "clear_deps r = clear_deps prev")
    case False
    then show ?thesis by (simp add: pending_def cd)
  next
    case c: True
    have dd: "detect_deps nxt = detect_deps r"
      using c by (simp add: nxt run_effects_def Let_def detect_deps_def clear_effect_def
          field_effect_def test_effect_def detect_effect_def)
    have fd: "field_deps nxt = field_deps r"
      using c by (simp add: nxt run_effects_def Let_def field_deps_def clear_effect_def
          field_effect_def test_effect_def detect_effect_def)
    show ?thesis
    proof (cases "field_deps r = field_deps prev \<and> detect_deps r = detect_deps prev")
      case False
      then show ?thesis using c by (auto simp add: pending_def cd dd fd)
    next
      case True
      then have q: "nxt = (if testSuccess r \<noteq> testSuccess prev then test_effect r r else r)"
        using c by (simp add: nxt run_effects_def Let_def)
      with changed have t: "testSuccess r \<noteq> testSuccess prev" by (auto split: if_splits)
      then have "testSuccess nxt = testSuccess r"
        using q by (simp add: test_effect_def testSuccess_def)
      then have "pending (r, nxt) = 0"
        by (simp add: pending_def cd dd fd)
      moreover have "pending (prev, r) = 1"
        using c True t by (simp add: pending_def)
      ultimately show ?thesis by simp
    qed
  qed
  then show "((r, nxt), (prev, r)) \<in> measure pending" by simp
qed

subsection \<open>Event handlers and steps\<close>

text \<open>
  \<open>handleTestEmail\<close> makes two updates. The first, \<open>setTestResultValid(true)\<close>, is a
  React state update.
\<close>

definition handleTestEmail_state :: "controller \<Rightarrow> controller" where
  "handleTestEmail_state s = s\<lparr>testResultValid := True\<rparr>"

text \<open>
  The second, \<open>testFetcher.submit(formData, ...)\<close>, is the router's: the fetcher turns
  \<open>submitting\<close> and keeps its data.
\<close>

definition handleTestEmail_submit :: "controller \<Rightarrow> controller" where
  "handleTestEmail_submit s = s\<lparr>testFetcher := (testFetcher s)\<lparr>state := Submitting\<rparr>\<rparr>"

text \<open>
  React renders the router's update either together with the state update or in a render
  of its own after it; which of the two depends on how the router hands its state to
  React, and nothing in the component decides it.
\<close>

datatype delivery = SameRender | NextRender

text \<open>\<open>handleDisableNotifications\<close>: the submit of the clear fetcher.\<close>

definition handleDisableNotifications :: "controller \<Rightarrow> controller" where
  "handleDisableNotifications s = s\<lparr>clearFetcher := (clearFetcher s)\<lparr>state := Submitting\<rparr>\<rparr>"

text \<open>
  What can happen to the mounted component: the four \<open>onChange\<close> handlers, the three
  buttons, the timeout, and the router delivering new loader data or a new view of one
  fetcher (together with the loader data of the same update).
\<close>

datatype event =
    ChangeEmail string
  | ChangePassword string
  | ChangeHost string
  | ChangePort string
  | ClickTest delivery
  | ClickSave
  | ClickDisable
  | Timeout
  | LoaderData "FormSettings option"
  | SaveFetcher fetcher_view "FormSettings option"
  | TestFetcher fetcher_view "FormSettings option"
  | ClearFetcher fetcher_view "FormSettings option"

text \<open>
  The state updates an event makes before React renders again. \<open>ClickSave\<close> is the
  submit of \<open>fetcher.Form\<close>; a timeout that is not pending does nothing.
\<close>

fun dispatch :: "event \<Rightarrow> controller \<Rightarrow> controller" where
  "dispatch (ChangeEmail v) s = s\<lparr>email := v\<rparr>"
| "dispatch (ChangePassword v) s = s\<lparr>password := v\<rparr>"
| "dispatch (ChangeHost v) s = s\<lparr>smtpHost := Some v\<rparr>"
| "dispatch (ChangePort v) s = s\<lparr>smtpPort := v\<rparr>"
| "dispatch (ClickTest SameRender) s = handleTestEmail_submit (handleTestEmail_state s)"
| "dispatch (ClickTest NextRender) s = handleTestEmail_state s"
| "dispatch ClickSave s = s\<lparr>fetcher := (fetcher s)\<lparr>state := Submitting\<rparr>\<rparr>"
| "dispatch ClickDisable s = handleDisableNotifications s"
| "dispatch Timeout s =
     (case timer s of
        None \<Rightarrow> s
      | Some (domain, st) \<Rightarrow> snd (timeout_callback domain st (s\<lparr>timer := None\<rparr>)))"
| "dispatch (LoaderData st) s = s\<lparr>settings := st\<rparr>"
| "dispatch (SaveFetcher f st) s = s\<lparr>settings := st, fetcher := f\<rparr>"
| "dispatch (TestFetcher f st) s = s\<lparr>settings := st, testFetcher := f\<rparr>"
| "dispatch (ClearFetcher f st) s = s\<lparr>settings := st, clearFetcher := f\<rparr>"

text \<open>
  The update of an event that React renders only after the first one has been rendered
  and its effects have run: the router's half of a test click delivered apart.
\<close>

fun follow_up :: "event \<Rightarrow> controller \<Rightarrow> controller" where
  "follow_up (ClickTest NextRender) s = handleTestEmail_submit s"
| "follow_up ev s = s"

definition step :: "event \<Rightarrow> controller \<Rightarrow> controller" where
  "step ev s = (let r = settle s (dispatch ev s) in settle r (follow_up ev r))"

fun run :: "event list \<Rightarrow> controller \<Rightarrow> controller" where
  "run [] s = s"
| "run (ev # evs) s = run evs (step ev s)"

text \<open>Mounting: the first render, all effects, then renders until nothing changes.\<close>

definition mount :: "FormSettings option \<Rightarrow> controller" where
  "mount st = settle (initial st) (mount_effects (initial st))"

subsection \<open>Notions of the specification\<close>

text \<open>
  The specification's wording of the domain: the substring after the last \<open>@\<close>,
  case-folded; no \<open>@\<close>, or nothing after it, gives no domain.
\<close>

definition after_last_at :: "string \<Rightarrow> string" where
  "after_last_at s = rev (takeWhile (\<lambda>c. c \<noteq> CHR ''@'') (rev s))"

definition spec_domain :: "string \<Rightarrow> string option" where
  "spec_domain s =
     (if CHR ''@'' \<notin> set s \<or> after_last_at s = [] then None
      else Some (toLowerCase (after_last_at s)))"

text \<open>
  What the code extracts, in words: take the part of the string after its last line
  terminator; in it, the substring after the first \<open>@\<close>, if that is not empty.
\<close>

definition last_line :: "string \<Rightarrow> string" where
  "last_line s = rev (takeWhile (\<lambda>c. \<not> isLineTerminator c) (rev s))"

definition after_first_at :: "string \<Rightarrow> string option" where
  "after_first_at s =
     (case dropWhile (\<lambda>c. c \<noteq> CHR ''@'') s of
        [] \<Rightarrow> None
      | c # cs \<Rightarrow> if cs = [] then None else Some cs)"

text \<open>
  A test-send completes successfully while its result is marked current: the router
  shows the test fetcher idle with \<open>success\<close> data and \<open>testResultValid\<close> holds.
\<close>

fun test_completes_ok :: "event \<Rightarrow> controller \<Rightarrow> bool" where
  "test_completes_ok (TestFetcher f st) s =
     (state f = Idle \<and> data_success f \<and> testResultValid s)"
| "test_completes_ok ev s = False"

text \<open>Every test click of the run is rendered together with the router's update.\<close>

definition same_render :: "event list \<Rightarrow> bool" where
  "same_render evs = (ClickTest NextRender \<notin> set evs)"

text \<open>
  Along a run, whether a successful and current test outcome has been recorded and no
  field has changed since: \<open>g\<close> is the answer before the events.
\<close>

fun success_recorded :: "event list \<Rightarrow> controller \<Rightarrow> bool \<Rightarrow> bool" where
  "success_recorded [] s g = g"
| "success_recorded (ev # evs) s g =
     success_recorded evs (step ev s)
       (if field_deps (step ev s) \<noteq> field_deps s then False
        else if test_completes_ok ev s then True
        else g)"

text \<open>An edit of one of the four fields.\<close>

fun is_edit :: "event \<Rightarrow> bool" where
  "is_edit (ChangeEmail v) = True"
| "is_edit (ChangePassword v) = True"
| "is_edit (ChangeHost v) = True"
| "is_edit (ChangePort v) = True"
| "is_edit ev = False"

text \<open>
  The reset workflow state: the four fields empty, no detected domain and no matched
  profile, both gate flags false.
\<close>

definition is_reset :: "controller \<Rightarrow> bool" where
  "is_reset s =
     (email s = [] \<and> password s = [] \<and> smtpHost s = Some [] \<and> smtpPort s = []
      \<and> emailDomain s = None \<and> smtpConfig s = NoConfig
      \<and> \<not> testPassed s \<and> \<not> testResultValid s)"

text \<open>A test success that the page shows has been recorded in \<open>testPassed\<close>.\<close>

definition gate_inv :: "controller \<Rightarrow> bool" where
  "gate_inv s = (testSuccess s \<longrightarrow> testPassed s)"

text \<open>The clear effect does its reset in the commit after the render \<open>r\<close>.\<close>

definition clear_fires :: "controller \<Rightarrow> controller \<Rightarrow> bool" where
  "clear_fires prev r =
     (clear_deps r \<noteq> clear_deps prev
      \<and> state (clearFetcher r) = Idle \<and> data_success (clearFetcher r))"

subsection \<open>Example inputs\<close>

definition example_row :: FormSettings where
  "example_row =
     \<lparr>row_id = ''s-2'', form_id = ''form-2'',
      notification_email = Some ''owner@gmail.com'',
      notification_email_password = Some ''secret'',
      smtp_host = Some ''smtp.relay.example'',
      smtp_port = Some 465,
      smtp_secure = 1,
      updated_at = 1000\<rparr>"

definition example_env :: env where
  "example_env =
     \<lparr>db = \<lparr>forms = [''form-1'', ''form-2''], form_settings = [example_row]\<rparr>,
      fault = None, now = 2000, uuid = ''s-9''\<rparr>"

definition example_fields :: "string \<Rightarrow> (string \<times> string) list" where
  "example_fields p =
     [(''notification_email'', ''me@example.org''),
      (''notification_email_password'', ''pw''),
      (''smtp_host'', ''mail.example.org''),
      (''smtp_port'', p)]"

definition example_save :: "string \<Rightarrow> request" where
  "example_save p = \<lparr>method = ''POST'', body = Some (example_fields p)\<rparr>"

definition example_delete :: request where
  "example_delete = \<lparr>method = ''DELETE'', body = None\<rparr>"

definition success_view :: fetcher_view where
  "success_view = \<lparr>state = Idle, data = Some ok\<rparr>"


definition failure_view :: fetcher_view where
  "failure_view = \<lparr>state = Idle, data = Some (failure 400 ''Invalid login'')\<rparr>"

text \<open>
  A session on a form without settings: the user enters an address of an unlisted
  provider, waits for the detection, fills in the other three fields and clicks the test
  button, so that the test is in flight.
\<close>

definition example_filling :: "event list" where
  "example_filling =
     [ChangeEmail ''a@x.org'', Timeout, ChangePassword ''p'', ChangeHost ''h'',
      ChangePort ''25'']"

definition example_in_flight :: controller where
  "example_in_flight = run (example_filling @ [ClickTest NextRender]) (mount None)"

text \<open>
  The session goes on: the test succeeds, the user edits the port and clicks the test
  button again.
\<close>

definition example_retest :: "event list" where
  "example_retest =
     example_filling @
     [ClickTest NextRender, TestFetcher success_view None,
      ChangePort ''26'', ClickTest NextRender]"

text \<open>
  Another session: the user edits the port while the first test is in flight, the
  response of that test arrives and is a success, and the user clicks the test button
  again.
\<close>

definition example_stale :: "event list" where
  "example_stale =
     example_filling @
     [ClickTest NextRender, ChangePort ''26'',
      TestFetcher success_view None, ClickTest NextRender]"



section \<open>The actions and the loader: proofs\<close>



lemma form_id_set_columns [simp]: "form_id (set_columns em pw hst prt t r) = form_id r"
  by (simp add: set_columns_def)






lemma save_settings_valid:
  assumes "fault e = None"
    and "formData_get fd ''notification_email'' = Some em" and "em \<noteq> []"
    and "formData_get fd ''notification_email_password'' = Some pw" and "pw \<noteq> []"
    and "formData_get fd ''smtp_host'' = Some hst" and "hst \<noteq> []"
    and "formData_get fd ''smtp_port'' = Some prt" and "prt \<noteq> []"
  shows "save_settings e fd formId =
     (ok, if first_settings (db e) formId \<noteq> None
          then update_settings (db e) formId em pw hst (parseInt prt) (now e)
          else insert_settings (db e) (uuid e) formId em pw hst (parseInt prt) (now e))"
  using assms by (simp add: save_settings_def falsy_def throws_def)

lemma action_save_valid:
  assumes "fault e = None" and "form_exists (db e) formId"
    and "method req = ''POST''" and "body req = Some fd"
    and "formData_get fd ''notification_email'' = Some em" and "em \<noteq> []"
    and "formData_get fd ''notification_email_password'' = Some pw" and "pw \<noteq> []"
    and "formData_get fd ''smtp_host'' = Some hst" and "hst \<noteq> []"
    and "formData_get fd ''smtp_port'' = Some prt" and "prt \<noteq> []"
  shows "action e req formId =
     (Inr ok, if first_settings (db e) formId \<noteq> None
          then update_settings (db e) formId em pw hst (parseInt prt) (now e)
          else insert_settings (db e) (uuid e) formId em pw hst (parseInt prt) (now e))"
  using assms(1-4) save_settings_valid[OF assms(1) assms(5-12)]
  by (simp add: action_def throws_def)




text \<open>
  Claim C4, as amended. A save request for an existing form whose port field is absent or
  empty gets the 400 response and the database is returned unchanged. The validation is
  the emptiness test alone: when all four fields are non-empty the 400 response is never
  given, whatever the port string is.
\<close>

theorem save_port_validation:
  assumes "\<not> throws e 0" and "form_exists (db e) formId"
    and "method req = ''POST''" and "body req = Some fd"
  shows "(falsy (formData_get fd ''smtp_port'') \<longrightarrow>
            action e req formId = (Inr (failure 400 ''Missing required fields''), db e))
       \<and> (\<not> falsy (formData_get fd ''notification_email'')
          \<and> \<not> falsy (formData_get fd ''notification_email_password'')
          \<and> \<not> falsy (formData_get fd ''smtp_host'')
          \<and> \<not> falsy (formData_get fd ''smtp_port'') \<longrightarrow>
            fst (action e req formId) \<noteq> Inr (failure 400 ''Missing required fields''))"
  using assms
  by (simp add: action_def save_settings_def Let_def ok_def failure_def split: prod.splits)



lemma first_settings_None_filter:
  "first_settings d formId = None \<Longrightarrow> delete_settings d formId = d"
  by (simp add: first_settings_def delete_settings_def find_None_iff filter_id_conv)

lemma first_settings_delete: "first_settings (delete_settings d formId) formId = None"
  by (simp add: first_settings_def delete_settings_def find_None_iff)

lemma form_exists_delete: "form_exists (delete_settings d g) f = form_exists d f"
  by (simp add: form_exists_def delete_settings_def)

text \<open>
  Claim C8. A \<open>DELETE\<close> for an existing form returns the 200 success response whether or
  not the form has a settings row; afterwards the form has none; without a row before,
  the database is unchanged; and a second \<open>DELETE\<close> succeeds again and changes nothing.
  The database calls are assumed not to throw.
\<close>

theorem clear_idempotent:
  assumes "fault e = None" and "form_exists (db e) formId" and "method req = ''DELETE''"
  shows "fst (action e req formId) = Inr ok
       \<and> first_settings (snd (action e req formId)) formId = None
       \<and> forms (snd (action e req formId)) = forms (db e)
       \<and> (first_settings (db e) formId = None \<longrightarrow> snd (action e req formId) = db e)
       \<and> action (e\<lparr>db := snd (action e req formId)\<rparr>) req formId
           = (Inr ok, snd (action e req formId))"
  using assms
  by (simp add: action_def throws_def first_settings_None_filter first_settings_delete form_exists_delete)
   (simp add: delete_settings_def)

text \<open>
  Claim C7. When the form lookup finds no form, the settings action returns the 404
  response for every method and every body (so for a save with fields missing and for a
  clear) and returns the database unchanged; the test action, for a \<open>POST\<close>, returns the
  404 response and hands nothing to \<open>sendTestEmail\<close>. The form lookup is assumed not to
  throw.
\<close>

theorem missing_form_404:
  assumes "\<not> throws e 0" and "\<not> form_exists (db e) formId"
  shows "action e req formId = (Inr (failure 404 ''Form not found''), db e)
       \<and> (method req = ''POST'' \<longrightarrow>
            test_action sendTestEmail e req formId = (failure 404 ''Form not found'', []))"
  using assms by (simp add: action_def test_action_def)


lemma parseInt_587x: "parseInt ''587x'' = Some 587"
  by code_simp

lemma parseInt_abc: "parseInt ''abc'' = None"
  by code_simp

text \<open>Beyond the safe integers the parse is the nearest double, not the digits read.\<close>

lemma parseInt_rounds:
  "parseInt ''9007199254740993'' = Some 9007199254740992"
  "parseInt ''-9007199254740995'' = Some (- 9007199254740996)"
  by code_simp+

lemma example_fields_get:
  "formData_get (example_fields p) ''notification_email'' = Some ''me@example.org''"
  "formData_get (example_fields p) ''notification_email_password'' = Some ''pw''"
  "formData_get (example_fields p) ''smtp_host'' = Some ''mail.example.org''"
  "formData_get (example_fields p) ''smtp_port'' = Some p"
  by (simp_all add: formData_get_def example_fields_def)

lemma example_env_simps:
  "fault example_env = None" "now example_env = 2000" "uuid example_env = ''s-9''"
  "forms (db example_env) = [''form-1'', ''form-2'']"
  "form_settings (db example_env) = [example_row]"
  by (simp_all add: example_env_def)

lemma example_first_settings:
  "first_settings (db example_env) ''form-1'' = None"
  "first_settings (db example_env) ''form-2'' = Some example_row"
  by (simp_all add: first_settings_def example_env_simps) (simp_all add: example_row_def)


text \<open>Both halves at the example: the empty port, and the port \<open>587\<close>.\<close>

theorem save_port_validation_witness:
  "action example_env (example_save []) ''form-1''
     = (Inr (failure 400 ''Missing required fields''), db example_env)
   \<and> fst (action example_env (example_save ''587'') ''form-1'')
     \<noteq> Inr (failure 400 ''Missing required fields'')"
proof -
  have 1: "\<not> throws example_env 0" by (simp add: example_env_def throws_def)
  have 2: "form_exists (db example_env) ''form-1''"
    by (simp add: example_env_def form_exists_def)
  have 3: "method (example_save p) = ''POST''" for p by (simp add: example_save_def)
  have 4: "body (example_save p) = Some (example_fields p)" for p
    by (simp add: example_save_def)
  from save_port_validation[OF 1 2 3 4, of "[]"] save_port_validation[OF 1 2 3 4, of "''587''"]
  show ?thesis
    by (simp add: example_fields_get falsy_def)
qed

text \<open>
  Claim C4 as stated fails for a malformed port: with the port \<open>587x\<close>, which is not a
  number, the save returns the 200 response and inserts a row, whose port is
  \<open>parseInt\<close> of \<open>587x\<close>, that is 587.
\<close>

theorem save_malformed_port_counterexample:
  "fst (action example_env (example_save ''587x'') ''form-1'') = Inr ok
   \<and> form_settings (snd (action example_env (example_save ''587x'') ''form-1''))
     = [example_row,
        \<lparr>row_id = ''s-9'', form_id = ''form-1'',
         notification_email = Some ''me@example.org'',
         notification_email_password = Some ''pw'',
         smtp_host = Some ''mail.example.org'',
         smtp_port = Some 587, smtp_secure = 1, updated_at = 2000\<rparr>]
   \<and> form_settings (db example_env) = [example_row]"
proof -
  have 2: "form_exists (db example_env) ''form-1''"
    by (simp add: example_env_simps form_exists_def)
  have 3: "method (example_save ''587x'') = ''POST''" by (simp add: example_save_def)
  have 4: "body (example_save ''587x'') = Some (example_fields ''587x'')"
    by (simp add: example_save_def)
  from action_save_valid[OF example_env_simps(1) 2 3 4 example_fields_get(1) _
      example_fields_get(2) _ example_fields_get(3) _ example_fields_get(4)]
  show ?thesis
    by (simp add: example_first_settings parseInt_587x insert_settings_def example_env_simps)
qed

text \<open>
  A port without any digit passes the emptiness test as well; its \<open>parseInt\<close> is
  \<open>NaN\<close>, bound as \<open>NULL\<close>.
\<close>

lemma save_port_without_digits:
  "fst (action example_env (example_save ''abc'') ''form-1'') = Inr ok
   \<and> map smtp_port (form_settings (snd (action example_env (example_save ''abc'') ''form-1'')))
     = [Some 465, None]"
proof -
  have 2: "form_exists (db example_env) ''form-1''"
    by (simp add: example_env_simps form_exists_def)
  have 3: "method (example_save ''abc'') = ''POST''" by (simp add: example_save_def)
  have 4: "body (example_save ''abc'') = Some (example_fields ''abc'')"
    by (simp add: example_save_def)
  from action_save_valid[OF example_env_simps(1) 2 3 4 example_fields_get(1) _
      example_fields_get(2) _ example_fields_get(3) _ example_fields_get(4)]
  show ?thesis
    by (simp add: example_first_settings parseInt_abc insert_settings_def example_env_simps)
      (simp add: example_row_def)
qed

text \<open>
  At the example: \<open>form-1\<close> has no row and the database stays as it is; \<open>form-2\<close> loses
  its row, and deleting once more changes nothing.
\<close>

theorem clear_idempotent_witness:
  "action example_env example_delete ''form-1'' = (Inr ok, db example_env)
   \<and> form_settings (snd (action example_env example_delete ''form-2'')) = []
   \<and> action (example_env\<lparr>db := snd (action example_env example_delete ''form-2'')\<rparr>)
        example_delete ''form-2''
      = (Inr ok, snd (action example_env example_delete ''form-2''))"
proof -
  have 1: "fault example_env = None" by (simp add: example_env_def)
  have 2: "form_exists (db example_env) ''form-1''" "form_exists (db example_env) ''form-2''"
    by (simp_all add: example_env_def form_exists_def)
  have 3: "method example_delete = ''DELETE''" by (simp add: example_delete_def)
  have 5: "first_settings (db example_env) ''form-1'' = None"
    by (rule example_first_settings)
  have 6: "delete_settings (db example_env) ''form-2'' = (db example_env)\<lparr>form_settings := []\<rparr>"
    by (simp add: delete_settings_def example_env_simps) (simp add: example_row_def)
  have 7: "snd (action example_env example_delete ''form-2'')
      = (db example_env)\<lparr>form_settings := []\<rparr>"
    using 1 2 3 6 by (simp add: action_def throws_def)
  from clear_idempotent[OF 1 2(1) 3] clear_idempotent[OF 1 2(2) 3]
  show ?thesis
    by (simp add: 5 7 prod_eq_iff)
qed

text \<open>
  At the example: a save without a port, a clear and a test for the unknown form
  \<open>form-7\<close>.
\<close>

theorem missing_form_404_witness:
  "action example_env (example_save []) ''form-7''
     = (Inr (failure 404 ''Form not found''), db example_env)
   \<and> action example_env example_delete ''form-7''
     = (Inr (failure 404 ''Form not found''), db example_env)
   \<and> test_action (\<lambda>c. Some (Sent None)) example_env (example_save []) ''form-7''
     = (failure 404 ''Form not found'', [])"
proof -
  have 1: "\<not> throws example_env 0" by (simp add: example_env_def throws_def)
  have 2: "\<not> form_exists (db example_env) ''form-7''"
    by (simp add: example_env_def form_exists_def)
  have 3: "method (example_save []) = ''POST''" by (simp add: example_save_def)
  from missing_form_404[OF 1 2, of "example_save []" "\<lambda>c. Some (Sent None)"]
    missing_form_404[OF 1 2, of example_delete]
  show ?thesis by (simp add: 3)
qed

section \<open>The settings page: proofs\<close>

subsection \<open>Commits\<close>

declare settle.simps [simp del]

lemmas effect_defs = run_effects_def Let_def detect_effect_def test_effect_def field_effect_def
  clear_effect_def

lemma run_effects_frame:
  "settings (run_effects prev r) = settings r"
  "fetcher (run_effects prev r) = fetcher r"
  "testFetcher (run_effects prev r) = testFetcher r"
  "clearFetcher (run_effects prev r) = clearFetcher r"
  by (simp_all add: effect_defs)

lemma clear_deps_run_effects: "clear_deps (run_effects prev r) = clear_deps r"
  by (simp add: clear_deps_def run_effects_frame)

lemma run_effects_fields:
  assumes "\<not> clear_fires prev r"
  shows "email (run_effects prev r) = email r"
    and "password (run_effects prev r) = password r"
    and "smtpHost (run_effects prev r) = smtpHost r"
    and "smtpPort (run_effects prev r) = smtpPort r"
  using assms by (auto simp add: effect_defs clear_fires_def)

lemma field_deps_run_effects:
  "\<not> clear_fires prev r \<Longrightarrow> field_deps (run_effects prev r) = field_deps r"
  by (simp add: field_deps_def run_effects_fields)

lemma detect_deps_run_effects:
  "\<not> clear_fires prev r \<Longrightarrow> detect_deps (run_effects prev r) = detect_deps r"
  by (simp add: detect_deps_def run_effects_fields run_effects_frame)

lemma testSuccess_run_effects:
  "testSuccess (run_effects prev r) \<Longrightarrow> testSuccess r"
  by (auto simp add: effect_defs testSuccess_def split: if_splits)

lemma run_effects_quiet:
  assumes "clear_deps x = clear_deps p" and "field_deps x = field_deps p"
    and "detect_deps x = detect_deps p" and "testSuccess x = testSuccess p \<or> \<not> testSuccess x"
  shows "run_effects p x = x"
  using assms by (auto simp add: run_effects_def Let_def test_effect_def)

lemma settle_same: "settle x x = x"
  by (simp add: settle.simps[of x x] run_effects_quiet)

lemma settle_next: "settle prev r = settle r (run_effects prev r)"
  by (simp add: settle.simps[of prev r] Let_def settle_same)

lemma clear_fires_next: "\<not> clear_fires r (run_effects prev r)"
  by (simp add: clear_fires_def clear_deps_run_effects)

lemma settle_two_commits: "settle prev r = run_effects r (run_effects prev r)"
proof -
  define n1 where "n1 = run_effects prev r"
  define n2 where "n2 = run_effects r n1"
  have nf: "\<not> clear_fires r n1" unfolding n1_def by (rule clear_fires_next)
  have "clear_deps n2 = clear_deps n1"
    unfolding n2_def by (rule clear_deps_run_effects)
  moreover have "field_deps n2 = field_deps n1"
    unfolding n2_def using nf by (rule field_deps_run_effects)
  moreover have "detect_deps n2 = detect_deps n1"
    unfolding n2_def using nf by (rule detect_deps_run_effects)
  moreover have "testSuccess n2 = testSuccess n1 \<or> \<not> testSuccess n2"
    unfolding n2_def using testSuccess_run_effects by blast
  ultimately have "run_effects n1 n2 = n2" by (rule run_effects_quiet)
  then have "settle n1 n2 = n2"
    by (simp add: settle.simps[of n1 n2])
  then show ?thesis
    using settle_next[of prev r] settle_next[of r n1] by (simp add: n1_def n2_def)
qed

lemma run_effects_second:
  assumes "\<not> clear_fires prev r"
  shows "run_effects r (run_effects prev r) = run_effects prev r"
proof (rule run_effects_quiet)
  show "clear_deps (run_effects prev r) = clear_deps r" by (rule clear_deps_run_effects)
  show "field_deps (run_effects prev r) = field_deps r"
    using assms by (rule field_deps_run_effects)
  show "detect_deps (run_effects prev r) = detect_deps r"
    using assms by (rule detect_deps_run_effects)
  show "testSuccess (run_effects prev r) = testSuccess r \<or> \<not> testSuccess (run_effects prev r)"
    using testSuccess_run_effects by blast
qed

lemma settle_one_commit: "\<not> clear_fires prev r \<Longrightarrow> settle prev r = run_effects prev r"
  by (simp add: settle_two_commits run_effects_second)

subsection \<open>Domain extraction\<close>

lemma last_line_Cons:
  "last_line (c # cs) =
     (if list_ex isLineTerminator cs then last_line cs
      else if isLineTerminator c then cs else c # cs)"
proof (cases "list_ex isLineTerminator cs")
  case True
  then obtain x where "x \<in> set (rev cs)" "\<not> \<not> isLineTerminator x"
    by (auto simp: list_ex_iff)
  then have "takeWhile (\<lambda>c. \<not> isLineTerminator c) (rev cs @ [c])
      = takeWhile (\<lambda>c. \<not> isLineTerminator c) (rev cs)"
    by (rule takeWhile_append1)
  with True show ?thesis by (simp add: last_line_def)
next
  case False
  then have "\<And>x. x \<in> set (rev cs) \<Longrightarrow> \<not> isLineTerminator x"
    by (auto simp: list_ex_iff)
  then have "takeWhile (\<lambda>c. \<not> isLineTerminator c) (rev cs @ [c])
      = rev cs @ takeWhile (\<lambda>c. \<not> isLineTerminator c) [c]"
    by (rule takeWhile_append2)
  with False show ?thesis by (simp add: last_line_def)
qed

lemma last_line_no_terminator:
  "\<not> list_ex isLineTerminator cs \<Longrightarrow> last_line cs = cs"
proof -
  assume "\<not> list_ex isLineTerminator cs"
  then have "\<forall>x\<in>set (rev cs). \<not> isLineTerminator x" by (simp add: list_ex_iff)
  then have tw: "takeWhile (\<lambda>c. \<not> isLineTerminator c) (rev cs) = rev cs"
    by (simp only: takeWhile_eq_all_conv)
  show ?thesis unfolding last_line_def tw by (rule rev_rev_ident)
qed

lemma at_not_terminator: "\<not> isLineTerminator CHR ''@''"
  by (simp add: isLineTerminator_def)

lemma match_domain_words: "match_domain s = after_first_at (last_line s)"
proof (induction s)
  case Nil
  show ?case by (simp add: after_first_at_def last_line_def)
next
  case (Cons c cs)
  show ?case
  proof (cases "list_ex isLineTerminator cs")
    case True
    then show ?thesis using Cons by (simp add: last_line_Cons)
  next
    case False
    then have ll: "last_line cs = cs" by (rule last_line_no_terminator)
    show ?thesis
      using Cons False ll at_not_terminator
      by (auto simp add: last_line_Cons after_first_at_def split: list.splits)
  qed
qed

lemma match_domain_no_at: "CHR ''@'' \<notin> set s \<Longrightarrow> match_domain s = None"
  by (induction s) auto

lemma match_domain_nonempty: "match_domain s = Some m \<Longrightarrow> m \<noteq> []"
  by (induction s) (simp_all split: if_splits)

lemma getEmailDomain_truthy: "falsy (getEmailDomain s) = (getEmailDomain s = None)"
  by (auto simp add: getEmailDomain_def falsy_def toLowerCase_def
      dest: match_domain_nonempty split: option.splits)

subsection \<open>The gate flags\<close>

lemma testPassed_run_effects:
  "testPassed (run_effects prev r) =
     (\<not> clear_fires prev r \<and> field_deps r = field_deps prev
      \<and> (testPassed r \<or> (testSuccess r \<and> \<not> testSuccess prev)))"
  by (auto simp add: effect_defs clear_fires_def)

lemma testResultValid_run_effects:
  "testResultValid (run_effects prev r) =
     (\<not> clear_fires prev r \<and> field_deps r = field_deps prev \<and> testResultValid r)"
  by (auto simp add: effect_defs clear_fires_def)

lemma settle_frame:
  "settings (settle prev r) = settings r"
  "fetcher (settle prev r) = fetcher r"
  "testFetcher (settle prev r) = testFetcher r"
  "clearFetcher (settle prev r) = clearFetcher r"
  by (simp_all add: settle_two_commits run_effects_frame)

lemma testResultValid_settle:
  "testResultValid (settle prev r) =
     (\<not> clear_fires prev r \<and> field_deps r = field_deps prev \<and> testResultValid r)"
proof (cases "clear_fires prev r")
  case True
  then show ?thesis
    by (simp add: settle_two_commits testResultValid_run_effects)
next
  case False
  then show ?thesis by (simp add: settle_one_commit testResultValid_run_effects)
qed

lemma testSuccess_settle:
  "testSuccess (settle prev r) =
     (\<not> clear_fires prev r \<and> field_deps r = field_deps prev \<and> testSuccess r)"
  by (auto simp add: testSuccess_def settle_frame testResultValid_settle)

lemma testPassed_settle:
  "testPassed (settle prev r) =
     (\<not> clear_fires prev r \<and> field_deps r = field_deps prev
      \<and> (testPassed r \<or> (testSuccess r \<and> \<not> testSuccess prev)))"
proof (cases "clear_fires prev r")
  case True
  have "\<not> testSuccess (run_effects prev r)"
    using True by (simp add: testSuccess_def testResultValid_run_effects)
  then show ?thesis
    using True by (simp add: settle_two_commits testPassed_run_effects[of r])
      (simp add: testPassed_run_effects)
next
  case False
  then show ?thesis by (simp add: settle_one_commit testPassed_run_effects)
qed

lemma field_deps_settle_quiet:
  "\<not> clear_fires prev r \<Longrightarrow> field_deps (settle prev r) = field_deps r"
  by (simp add: settle_one_commit field_deps_run_effects)

lemma flags_after_field_change:
  assumes "field_deps (settle prev r) \<noteq> field_deps prev"
  shows "\<not> testPassed (settle prev r) \<and> \<not> testResultValid (settle prev r)"
  using assms field_deps_settle_quiet[of prev r]
  by (auto simp add: testPassed_settle testResultValid_settle)

lemma timeout_callback_frame:
  "testPassed (snd (timeout_callback d st s)) = testPassed s"
  "testResultValid (snd (timeout_callback d st s)) = testResultValid s"
  "testFetcher (snd (timeout_callback d st s)) = testFetcher s"
  "clearFetcher (snd (timeout_callback d st s)) = clearFetcher s"
  "fetcher (snd (timeout_callback d st s)) = fetcher s"
  "settings (snd (timeout_callback d st s)) = settings s"
  "email (snd (timeout_callback d st s)) = email s"
  "password (snd (timeout_callback d st s)) = password s"
  by (simp_all add: timeout_callback_def split: member.splits)

lemmas handler_defs = handleTestEmail_state_def handleTestEmail_submit_def
  handleDisableNotifications_def

lemma dispatch_testPassed: "testPassed (dispatch ev s) = testPassed s"
  by (induction ev s rule: dispatch.induct)
    (simp_all add: handler_defs timeout_callback_frame split: option.splits prod.splits)

lemma dispatch_testSuccess:
  assumes "ev \<noteq> ClickTest NextRender"
  shows "(testSuccess (dispatch ev s) \<and> \<not> testSuccess s)
       = (test_completes_ok ev s \<and> \<not> testSuccess s)"
  using assms
  by (induction ev s rule: dispatch.induct)
    (auto simp add: testSuccess_def handler_defs timeout_callback_frame
      split: option.splits prod.splits)

lemma dispatch_testResultValid:
  "testResultValid (dispatch ev s) = ((\<exists>d. ev = ClickTest d) \<or> testResultValid s)"
  by (induction ev s rule: dispatch.induct)
    (simp_all add: handler_defs timeout_callback_frame split: option.splits prod.splits)

lemma dispatch_clear_fires:
  "clear_fires s (dispatch ev s) \<Longrightarrow> \<exists>f st. ev = ClearFetcher f st"
  by (induction ev s rule: dispatch.induct)
    (simp_all add: clear_fires_def clear_deps_def handler_defs timeout_callback_frame
      split: option.splits prod.splits)

text \<open>Every event but the test click delivered apart is one render and its commits.\<close>

lemma follow_up_single: "ev \<noteq> ClickTest NextRender \<Longrightarrow> follow_up ev r = r"
  by (induction ev r rule: follow_up.induct) simp_all

lemma step_single: "ev \<noteq> ClickTest NextRender \<Longrightarrow> step ev s = settle s (dispatch ev s)"
  by (simp add: step_def follow_up_single settle_same)

lemma step_click_apart:
  "step (ClickTest NextRender) s =
     settle (settle s (handleTestEmail_state s))
       (handleTestEmail_submit (settle s (handleTestEmail_state s)))"
  by (simp add: step_def Let_def)

lemma testPassed_step:
  assumes "ev \<noteq> ClickTest NextRender"
  shows "testPassed (step ev s) =
     (\<not> clear_fires s (dispatch ev s) \<and> field_deps (dispatch ev s) = field_deps s
      \<and> (testPassed s \<or> (test_completes_ok ev s \<and> \<not> testSuccess s)))"
  using dispatch_testSuccess[OF assms, of s]
  by (auto simp add: step_single[OF assms] testPassed_settle dispatch_testPassed)

lemma testResultValid_step:
  assumes "ev \<noteq> ClickTest NextRender"
  shows "testResultValid (step ev s) =
     (\<not> clear_fires s (dispatch ev s) \<and> field_deps (dispatch ev s) = field_deps s
      \<and> ((\<exists>d. ev = ClickTest d) \<or> testResultValid s))"
  by (simp add: step_single[OF assms] testResultValid_settle dispatch_testResultValid)

lemma test_completes_ok_quiet:
  assumes "test_completes_ok ev s"
  shows "\<not> clear_fires s (dispatch ev s)" and "field_deps (dispatch ev s) = field_deps s"
    and "ev \<noteq> ClickTest NextRender"
  using assms by (cases ev; simp add: clear_fires_def clear_deps_def field_deps_def)+

lemma step_field_change:
  assumes "ev \<noteq> ClickTest NextRender"
  shows "field_deps (step ev s) \<noteq> field_deps s \<Longrightarrow>
   \<not> testPassed (step ev s) \<and> \<not> testResultValid (step ev s)"
  unfolding step_single[OF assms] by (rule flags_after_field_change)

lemma gate_inv_step:
  assumes "ev \<noteq> ClickTest NextRender"
  shows "gate_inv s \<Longrightarrow> gate_inv (step ev s)"
  unfolding gate_inv_def
  using dispatch_testSuccess[OF assms, of s]
  by (auto simp add: step_single[OF assms] testSuccess_settle testPassed_settle
      dispatch_testPassed)

lemma mount_eq: "mount st = mount_effects (initial st)"
proof -
  let ?i = "initial st" and ?r = "mount_effects (initial st)"
  have nd: "\<not> data_success (clearFetcher ?i)" "\<not> data_success (testFetcher ?i)"
    by (simp_all add: initial_def Let_def data_success_def)
  have c: "clear_deps ?r = clear_deps ?i"
    by (simp add: mount_effects_def clear_deps_def clear_effect_def field_effect_def
        test_effect_def detect_effect_def Let_def)
  have f: "field_deps ?r = field_deps ?i"
    using nd by (simp add: mount_effects_def field_deps_def clear_effect_def field_effect_def
        test_effect_def detect_effect_def Let_def)
  have d: "detect_deps ?r = detect_deps ?i"
    using nd by (simp add: mount_effects_def detect_deps_def clear_effect_def field_effect_def
        test_effect_def detect_effect_def Let_def)
  have t: "\<not> testSuccess ?r"
    by (simp add: mount_effects_def testSuccess_def clear_effect_def field_effect_def)
  have "\<not> clear_fires ?i ?r" using c by (simp add: clear_fires_def)
  then have "settle ?i ?r = run_effects ?i ?r" by (rule settle_one_commit)
  also have "\<dots> = ?r" using c f d t by (intro run_effects_quiet) simp_all
  finally show ?thesis by (simp add: mount_def)
qed

lemma mount_flags: "\<not> testPassed (mount st)" "\<not> testResultValid (mount st)"
  by (simp_all add: mount_eq mount_effects_def clear_effect_def field_effect_def)

lemma gate_inv_mount: "gate_inv (mount st)"
  by (simp add: gate_inv_def testSuccess_def mount_flags)

lemma gate_inv_run: "gate_inv s \<Longrightarrow> same_render evs \<Longrightarrow> gate_inv (run evs s)"
  by (induction evs arbitrary: s) (auto simp add: gate_inv_step same_render_def)

lemma recorded_run:
  "(testPassed s \<longrightarrow> g) \<Longrightarrow> same_render evs \<Longrightarrow>
   testPassed (run evs s) \<longrightarrow> success_recorded evs s g"
proof (induction evs arbitrary: s g)
  case Nil
  then show ?case by simp
next
  case (Cons ev evs)
  have ev: "ev \<noteq> ClickTest NextRender" and evs: "same_render evs"
    using Cons.prems(2) by (auto simp add: same_render_def)
  let ?g = "if field_deps (step ev s) \<noteq> field_deps s then False
            else if test_completes_ok ev s then True else g"
  have "testPassed (step ev s) \<longrightarrow> ?g"
    using Cons.prems(1) step_field_change[OF ev, of s] by (auto simp add: testPassed_step[OF ev])
  from Cons.IH[OF this evs] show ?case by simp
qed

text \<open>
  When every test click is rendered together with the router's update, the gate is as
  the specification describes it: from every state so reached in which \<open>testPassed\<close> is
  false, one more such event makes it true exactly when it is the router showing the test
  fetcher idle with \<open>success\<close> data while \<open>testResultValid\<close> holds; and when no
  successful and current test outcome has been recorded since the last change of a field,
  the Save Settings button is disabled.
\<close>

lemma save_gate_same_render:
  assumes "same_render evs" and "ev \<noteq> ClickTest NextRender"
  shows "(\<not> save_disabled s) = testPassed s
   \<and> (\<not> testPassed (run evs (mount st)) \<longrightarrow>
        testPassed (step ev (run evs (mount st))) = test_completes_ok ev (run evs (mount st)))
   \<and> (\<not> success_recorded evs (mount st) False \<longrightarrow> save_disabled (run evs (mount st)))"
proof (intro conjI impI)
  show "(\<not> save_disabled s) = testPassed s" by (simp add: save_disabled_def)
next
  assume np: "\<not> testPassed (run evs (mount st))"
  have "gate_inv (run evs (mount st))"
    using assms(1) by (intro gate_inv_run gate_inv_mount)
  with np have "\<not> testSuccess (run evs (mount st))" by (simp add: gate_inv_def)
  with np show "testPassed (step ev (run evs (mount st)))
      = test_completes_ok ev (run evs (mount st))"
    using test_completes_ok_quiet(1,2)[of ev "run evs (mount st)"]
    by (auto simp add: testPassed_step[OF assms(2)])
next
  assume "\<not> success_recorded evs (mount st) False"
  then show "save_disabled (run evs (mount st))"
    using recorded_run[of "mount st" False evs] assms(1)
    by (simp add: save_disabled_def mount_flags)
qed

lemma flags_stay_false:
  "\<not> testPassed s \<Longrightarrow> \<not> testResultValid s \<Longrightarrow> \<forall>d. ClickTest d \<notin> set evs \<Longrightarrow>
   \<not> testPassed (run evs s) \<and> \<not> testResultValid (run evs s)"
proof (induction evs arbitrary: s)
  case Nil
  then show ?case by simp
next
  case (Cons ev evs)
  have ev: "ev \<noteq> ClickTest NextRender" and nc: "\<nexists>d. ev = ClickTest d"
    and evs: "\<forall>d. ClickTest d \<notin> set evs"
    using Cons.prems(3) by auto
  have c: "\<not> test_completes_ok ev s"
    using Cons.prems(2) by (cases ev) simp_all
  have "\<not> testPassed (step ev s)" "\<not> testResultValid (step ev s)"
    using Cons.prems(1,2) c nc
    by (auto simp add: testPassed_step[OF ev] testResultValid_step[OF ev])
  from Cons.IH[OF this evs] show ?case by simp
qed

lemma edit_resets_flags:
  assumes "is_edit ev" and "field_deps (dispatch ev s) \<noteq> field_deps s"
  shows "\<not> testPassed (step ev s)" and "\<not> testResultValid (step ev s)"
proof -
  have ev: "ev \<noteq> ClickTest NextRender" using assms(1) by auto
  show "\<not> testPassed (step ev s)" using assms(2) by (simp add: testPassed_step[OF ev])
  show "\<not> testResultValid (step ev s)"
    using assms(2) by (simp add: testResultValid_step[OF ev])
qed

lemma settle_after_click:
  assumes "clear_deps r = clear_deps x" and "field_deps r = field_deps x"
  shows "testResultValid (settle x r) = testResultValid r"
  using assms by (simp add: testResultValid_settle clear_fires_def)

lemma click_test_marks_current:
  "testResultValid (step (ClickTest d) s)"
  "state (testFetcher (step (ClickTest d) s)) = Submitting"
proof -
  have deps: "clear_deps (handleTestEmail_state x) = clear_deps x"
    "field_deps (handleTestEmail_state x) = field_deps x"
    "clear_deps (handleTestEmail_submit x) = clear_deps x"
    "field_deps (handleTestEmail_submit x) = field_deps x" for x
    by (simp_all add: clear_deps_def field_deps_def handler_defs)
  have first: "testResultValid (settle s (handleTestEmail_state s))"
    unfolding settle_after_click[OF deps(1,2)] by (simp add: handler_defs)
  show "testResultValid (step (ClickTest d) s)"
  proof (cases d)
    case SameRender
    have "testResultValid (settle s (handleTestEmail_submit (handleTestEmail_state s)))"
      by (subst settle_after_click) (simp_all add: deps, simp add: handler_defs)
    then show ?thesis by (simp add: SameRender step_single)
  next
    case NextRender
    have "testResultValid (settle (settle s (handleTestEmail_state s))
        (handleTestEmail_submit (settle s (handleTestEmail_state s))))"
      unfolding settle_after_click[OF deps(3,4)] using first by (simp add: handler_defs)
    then show ?thesis by (simp only: NextRender step_click_apart)
  qed
  show "state (testFetcher (step (ClickTest d) s)) = Submitting"
    by (cases d) (simp_all add: step_single step_click_apart settle_frame handler_defs)
qed

text \<open>
  In every case: an edit that changes one of the four fields leaves \<open>testPassed\<close> and
  \<open>testResultValid\<close> false; a test click leaves \<open>testResultValid\<close> true with the test
  fetcher submitting, so before any response; and after such an edit both flags stay false
  until the test button is clicked again, whatever the router delivers in between.
\<close>

lemma flags_until_next_click:
  "(is_edit ev \<and> field_deps (dispatch ev s) \<noteq> field_deps s \<longrightarrow>
      \<not> testPassed (step ev s) \<and> \<not> testResultValid (step ev s))
   \<and> testResultValid (step (ClickTest d) s)
   \<and> state (testFetcher (step (ClickTest d) s)) = Submitting
   \<and> (is_edit ev \<and> field_deps (dispatch ev s) \<noteq> field_deps s
       \<and> (\<forall>d. ClickTest d \<notin> set evs) \<longrightarrow>
      \<not> testPassed (run evs (step ev s)) \<and> \<not> testResultValid (run evs (step ev s)))"
  using edit_resets_flags[of ev s] click_test_marks_current[of d s]
    flags_stay_false[of "step ev s" evs]
  by blast

subsection \<open>Detection and reset\<close>

lemma run_effects_no_clear:
  assumes "\<not> clear_fires prev r"
  shows "run_effects prev r =
     (let a1 = (if detect_deps r \<noteq> detect_deps prev
                then detect_effect r (r\<lparr>timer := None\<rparr>) else r);
          a2 = (if testSuccess r \<noteq> testSuccess prev then test_effect r a1 else a1)
      in if field_deps r \<noteq> field_deps prev then field_effect a2 else a2)"
proof (cases "clear_deps r \<noteq> clear_deps prev")
  case True
  with assms have "\<not> (state (clearFetcher r) = Idle \<and> data_success (clearFetcher r))"
    by (simp add: clear_fires_def)
  then have "clear_effect r a = a" for a
    unfolding clear_effect_def by (rule if_not_P)
  then show ?thesis by (simp add: run_effects_def Let_def)
next
  case False
  then show ?thesis by (simp add: run_effects_def Let_def)
qed

lemma detect_effect_cases:
  "detect_effect r a =
     (case getEmailDomain (email r) of
        None \<Rightarrow> a\<lparr>emailDomain := None, smtpConfig := NoConfig\<rparr>
      | Some d \<Rightarrow> a\<lparr>timer := Some (d, settings r)\<rparr>)"
proof (cases "getEmailDomain (email r)")
  case None
  then show ?thesis by (simp add: detect_effect_def falsy_def)
next
  case (Some d)
  then have "\<not> falsy (getEmailDomain (email r))"
    unfolding getEmailDomain_truthy by simp
  with Some show ?thesis by (simp add: detect_effect_def)
qed

lemma detection_run_effects:
  assumes "\<not> clear_fires prev r"
  shows "emailDomain (run_effects prev r) =
           (if detect_deps r \<noteq> detect_deps prev \<and> getEmailDomain (email r) = None then None
            else emailDomain r)"
    and "smtpConfig (run_effects prev r) =
           (if detect_deps r \<noteq> detect_deps prev \<and> getEmailDomain (email r) = None then NoConfig
            else smtpConfig r)"
    and "timer (run_effects prev r) =
           (if detect_deps r \<noteq> detect_deps prev
            then map_option (\<lambda>d. (d, settings r)) (getEmailDomain (email r))
            else timer r)"
  by (cases "getEmailDomain (email r)";
      simp add: run_effects_no_clear[OF assms] Let_def detect_effect_cases test_effect_def
        field_effect_def)+

lemma is_reset_run_effects:
  assumes "is_reset x" and "\<not> clear_fires p x"
  shows "is_reset (run_effects p x)"
proof -
  have e: "getEmailDomain (email x) = None"
    using assms(1) by (simp add: is_reset_def getEmailDomain_def)
  have "\<not> testSuccess x" using assms(1) by (simp add: is_reset_def testSuccess_def)
  then show ?thesis
    using assms e
    by (simp add: is_reset_def run_effects_fields detection_run_effects
        testPassed_run_effects testResultValid_run_effects)
qed

lemma is_reset_clear_effect:
  "clear_fires prev r \<Longrightarrow> is_reset (run_effects prev r)"
  by (simp add: effect_defs clear_fires_def is_reset_def)

lemma is_reset_settle:
  assumes "clear_fires prev r \<or> is_reset r"
  shows "is_reset (settle prev r)"
proof (cases "clear_fires prev r")
  case True
  then show ?thesis
    by (simp add: settle_two_commits is_reset_run_effects is_reset_clear_effect clear_fires_next)
next
  case False
  then show ?thesis
    using assms by (simp add: settle_one_commit is_reset_run_effects)
qed

text \<open>
  Claim C6. From every state in which the clear fetcher is not idle (so whatever the save
  and test fetchers are doing), the router showing it idle with \<open>success\<close> data leaves
  the reset state: four empty fields, no domain, no profile, both flags false. The save
  and test fetchers are left as they were, and the state is still the reset state after
  either of them changes later on.
\<close>

theorem clear_resets_workflow:
  assumes "state (clearFetcher s) \<noteq> Idle" and "state f = Idle" and "data_success f"
  shows "is_reset (step (ClearFetcher f st) s)
       \<and> fetcher (step (ClearFetcher f st) s) = fetcher s
       \<and> testFetcher (step (ClearFetcher f st) s) = testFetcher s
       \<and> is_reset (step (SaveFetcher f' st') (step (ClearFetcher f st) s))
       \<and> is_reset (step (TestFetcher f' st') (step (ClearFetcher f st) s))"
proof -
  let ?s' = "step (ClearFetcher f st) s"
  have single: "step (ClearFetcher f st) x = settle x (dispatch (ClearFetcher f st) x)"
    "step (SaveFetcher f' st') x = settle x (dispatch (SaveFetcher f' st') x)"
    "step (TestFetcher f' st') x = settle x (dispatch (TestFetcher f' st') x)" for x
    by (rule step_single, simp)+
  have cf: "clear_fires s (dispatch (ClearFetcher f st) s)"
    using assms by (auto simp add: clear_fires_def clear_deps_def)
  have r: "is_reset ?s'"
    unfolding single(1) using cf by (intro is_reset_settle) blast
  have keep: "is_reset (dispatch (SaveFetcher f' st') ?s')"
    "is_reset (dispatch (TestFetcher f' st') ?s')"
    using r by (simp_all add: is_reset_def)
  have later: "is_reset (step (SaveFetcher f' st') ?s')" "is_reset (step (TestFetcher f' st') ?s')"
    unfolding single(2,3) using keep by (blast intro: is_reset_settle)+
  have frame: "fetcher ?s' = fetcher s" "testFetcher ?s' = testFetcher s"
    by (simp_all add: step_single settle_frame)
  show ?thesis using r later frame by blast
qed

subsection \<open>Mounting\<close>

lemma initial_falsy:
  "initial st =
     \<lparr>settings = st,
      email = or_empty (Option.bind st notification_email),
      password = or_empty (Option.bind st notification_email_password),
      smtpHost = Some (or_empty (Option.bind st smtp_host)),
      smtpPort = or_empty (map_option toString (Option.bind st smtp_port)),
      emailDomain = getEmailDomain (or_empty (Option.bind st notification_email)),
      smtpConfig = (case getEmailDomain (or_empty (Option.bind st notification_email)) of
                      None \<Rightarrow> NoConfig | Some d \<Rightarrow> initial_config (SMTP_CONFIGS d)),
      testPassed = False, testResultValid = True,
      fetcher = \<lparr>state = Idle, data = None\<rparr>,
      testFetcher = \<lparr>state = Idle, data = None\<rparr>,
      clearFetcher = \<lparr>state = Idle, data = None\<rparr>,
      timer = None\<rparr>"
  by (auto simp add: initial_def Let_def getEmailDomain_truthy split: option.splits)

lemma mount_explicit:
  "mount st = (initial st)\<lparr>testPassed := False, testResultValid := False,
     timer := map_option (\<lambda>d. (d, st)) (getEmailDomain (or_empty (Option.bind st notification_email)))\<rparr>"
proof -
  let ?e = "or_empty (Option.bind st notification_email)"
  let ?i = "initial st"
  have e: "email ?i = ?e" "settings ?i = st"
    by (simp_all add: initial_falsy)
  have t: "test_effect ?i a = a" for a
    by (simp add: test_effect_def initial_falsy testSuccess_def data_success_def)
  have c: "clear_effect ?i a = a" for a
    by (simp add: clear_effect_def initial_falsy data_success_def)
  have m: "mount st = field_effect (detect_effect ?i ?i)"
    by (simp add: mount_eq mount_effects_def t c)
  show ?thesis
  proof (cases "getEmailDomain ?e")
    case None
    then have "detect_effect ?i ?i = ?i"
      by (simp add: detect_effect_cases e) (simp add: initial_falsy)
    with None show ?thesis by (simp add: m field_effect_def) (simp add: initial_falsy)
  next
    case (Some d)
    then have "detect_effect ?i ?i = ?i\<lparr>timer := Some (d, st)\<rparr>"
      by (simp add: detect_effect_cases e)
    with Some show ?thesis by (simp add: m field_effect_def)
  qed
qed

text \<open>
  Claim C10. Let the persisted port, if there is one, be a safe integer. In the first
  render, with no timeout pending or run, the detected domain is \<open>getEmailDomain\<close> of
  the persisted address, and the matched profile is the entry of the provider table for
  that domain: the profile itself for a listed provider, none for a domain that reads
  \<open>undefined\<close> and none without a domain. The host field holds the persisted host and the
  port field the digits of the persisted port, whatever profile is matched. The mount
  effects change none of the four, and the SMTP section is rendered in the first render
  and after mounting exactly when the persisted address has a domain.
\<close>

theorem mount_detects_synchronously:
  assumes "\<forall>n. Option.bind st smtp_port = Some n \<longrightarrow> isSafeInteger n"
  shows "emailDomain (initial st) = getEmailDomain (or_empty (Option.bind st notification_email))
   \<and> (case getEmailDomain (or_empty (Option.bind st notification_email)) of
        None \<Rightarrow> smtpConfig (initial st) = NoConfig
      | Some d \<Rightarrow>
          (case SMTP_CONFIGS d of
             Profile c \<Rightarrow> smtpConfig (initial st) = Matched c
           | Undefined \<Rightarrow> smtpConfig (initial st) = NoConfig
           | _ \<Rightarrow> smtpConfig (initial st) = OtherObject))
   \<and> smtpHost (initial st) = Some (or_empty (Option.bind st smtp_host))
   \<and> smtpPort (initial st) = or_empty (map_option toString (Option.bind st smtp_port))
   \<and> timer (initial st) = None
   \<and> emailDomain (mount st) = emailDomain (initial st)
   \<and> smtpConfig (mount st) = smtpConfig (initial st)
   \<and> smtpHost (mount st) = smtpHost (initial st)
   \<and> smtpPort (mount st) = smtpPort (initial st)
   \<and> smtp_section_rendered (initial st)
       = (getEmailDomain (or_empty (Option.bind st notification_email)) \<noteq> None)
   \<and> smtp_section_rendered (mount st) = smtp_section_rendered (initial st)"
  by (simp add: mount_explicit smtp_section_rendered_def getEmailDomain_truthy)
    (simp add: initial_falsy getEmailDomain_truthy initial_config_def
      split: option.splits member.splits)

subsection \<open>Detection after an edit of the address\<close>

lemma step_change_email:
  assumes "e \<noteq> email s"
  shows "emailDomain (step (ChangeEmail e) s) =
           (if getEmailDomain e = None then None else emailDomain s)"
    and "smtpConfig (step (ChangeEmail e) s) =
           (if getEmailDomain e = None then NoConfig else smtpConfig s)"
    and "timer (step (ChangeEmail e) s) = map_option (\<lambda>d. (d, settings s)) (getEmailDomain e)"
    and "smtpHost (step (ChangeEmail e) s) = smtpHost s"
    and "smtpPort (step (ChangeEmail e) s) = smtpPort s"
    and "settings (step (ChangeEmail e) s) = settings s"
proof -
  let ?r = "s\<lparr>email := e\<rparr>"
  have nf: "\<not> clear_fires s ?r" by (simp add: clear_fires_def clear_deps_def)
  have d: "detect_deps ?r \<noteq> detect_deps s" using assms by (simp add: detect_deps_def)
  have st: "step (ChangeEmail e) s = run_effects s ?r"
    using nf by (simp add: step_single settle_one_commit)
  show "emailDomain (step (ChangeEmail e) s) =
           (if getEmailDomain e = None then None else emailDomain s)"
    unfolding st detection_run_effects(1)[OF nf] using d by simp
  show "smtpConfig (step (ChangeEmail e) s) =
           (if getEmailDomain e = None then NoConfig else smtpConfig s)"
    unfolding st detection_run_effects(2)[OF nf] using d by simp
  show "timer (step (ChangeEmail e) s) = map_option (\<lambda>d. (d, settings s)) (getEmailDomain e)"
    unfolding st detection_run_effects(3)[OF nf] using d by simp
  show "smtpHost (step (ChangeEmail e) s) = smtpHost s"
    unfolding st run_effects_fields(3)[OF nf] by simp
  show "smtpPort (step (ChangeEmail e) s) = smtpPort s"
    unfolding st run_effects_fields(4)[OF nf] by simp
  show "settings (step (ChangeEmail e) s) = settings s"
    unfolding st run_effects_frame by simp
qed

lemma getEmailDomain_words:
  "getEmailDomain e = map_option toLowerCase (after_first_at (last_line e))"
  by (simp add: getEmailDomain_def match_domain_words split: option.splits)

lemma getEmailDomain_no_at: "CHR ''@'' \<notin> set e \<Longrightarrow> getEmailDomain e = None"
  by (simp add: getEmailDomain_def match_domain_no_at)

text \<open>
  Claim C5, as amended. The domain is the lower-cased substring after the first \<open>@\<close>
  of the part of the address that follows its last line terminator (the whole address
  when it has none), and there is none when that part has no \<open>@\<close> or nothing after
  its first \<open>@\<close>; in particular an address without \<open>@\<close> has none. When an address
  without a domain is typed, or is the persisted one at mount, the detected domain and the
  matched profile are empty and no detection is pending.
\<close>

theorem domain_extraction:
  "getEmailDomain e = map_option toLowerCase (after_first_at (last_line e))
   \<and> (CHR ''@'' \<notin> set e \<longrightarrow> getEmailDomain e = None)
   \<and> (getEmailDomain e = None \<and> e \<noteq> email s \<longrightarrow>
        emailDomain (step (ChangeEmail e) s) = None
        \<and> smtpConfig (step (ChangeEmail e) s) = NoConfig
        \<and> timer (step (ChangeEmail e) s) = None)
   \<and> (getEmailDomain (or_empty (Option.bind st notification_email)) = None \<longrightarrow>
        emailDomain (mount st) = None \<and> smtpConfig (mount st) = NoConfig
        \<and> timer (mount st) = None)"
proof (intro conjI impI)
  show "getEmailDomain e = map_option toLowerCase (after_first_at (last_line e))"
    by (rule getEmailDomain_words)
  show "getEmailDomain e = None" if "CHR ''@'' \<notin> set e"
    using that by (rule getEmailDomain_no_at)
next
  assume a: "getEmailDomain e = None \<and> e \<noteq> email s"
  then have ne: "e \<noteq> email s" by simp
  show "emailDomain (step (ChangeEmail e) s) = None"
    using a by (simp add: step_change_email(1)[OF ne])
  show "smtpConfig (step (ChangeEmail e) s) = NoConfig"
    using a by (simp add: step_change_email(2)[OF ne])
  show "timer (step (ChangeEmail e) s) = None"
    using a by (simp add: step_change_email(3)[OF ne])
next
  assume a: "getEmailDomain (or_empty (Option.bind st notification_email)) = None"
  show "emailDomain (mount st) = None" using a by (simp add: mount_explicit initial_falsy)
  show "smtpConfig (mount st) = NoConfig" using a by (simp add: mount_explicit initial_falsy)
  show "timer (mount st) = None" using a by (simp add: mount_explicit)
qed

text \<open>
  Claim C5 as stated fails for an address with two \<open>@\<close>: the code takes what follows
  the first one, the specification's wording what follows the last one.
\<close>

theorem domain_after_last_at_counterexample:
  "getEmailDomain ''a@b@Gmail.com'' = Some ''b@gmail.com''
   \<and> spec_domain ''a@b@Gmail.com'' = Some ''gmail.com''"
  by code_simp

text \<open>
  At three addresses: one with a domain in upper case, one without \<open>@\<close> typed during
  the example session, one ending in \<open>@\<close> persisted in the row.
\<close>

theorem domain_extraction_witness:
  "getEmailDomain ''Info@Example.ORG'' = Some ''example.org''
   \<and> CHR ''@'' \<notin> set ''no-at-sign''
   \<and> getEmailDomain ''no-at-sign'' = None
   \<and> emailDomain (step (ChangeEmail ''no-at-sign'') example_in_flight) = None
   \<and> smtpConfig (step (ChangeEmail ''no-at-sign'') example_in_flight) = NoConfig
   \<and> getEmailDomain ''user@'' = None
   \<and> emailDomain (mount (Some (example_row\<lparr>notification_email := Some ''user@''\<rparr>))) = None
   \<and> smtpConfig (mount (Some (example_row\<lparr>notification_email := Some ''user@''\<rparr>))) = NoConfig"
proof -
  let ?st = "Some (example_row\<lparr>notification_email := Some ''user@''\<rparr>)"
  have 1: "map_option toLowerCase (after_first_at (last_line ''Info@Example.ORG''))
      = Some ''example.org''" by code_simp
  have 2: "CHR ''@'' \<notin> set ''no-at-sign''" by simp
  have 3: "''no-at-sign'' \<noteq> email example_in_flight" by code_simp
  have 4: "or_empty (Option.bind ?st notification_email) = ''user@''"
    by (simp add: or_empty_def)
  have 5: "map_option toLowerCase (after_first_at (last_line ''user@'')) = None" by code_simp
  have a: "getEmailDomain ''Info@Example.ORG'' = Some ''example.org''"
    using domain_extraction[where e = "''Info@Example.ORG''", THEN conjunct1] unfolding 1 .
  have b: "getEmailDomain ''no-at-sign'' = None"
    using domain_extraction[where e = "''no-at-sign''", THEN conjunct2, THEN conjunct1] 2
    by blast
  have c: "emailDomain (step (ChangeEmail ''no-at-sign'') example_in_flight) = None
      \<and> smtpConfig (step (ChangeEmail ''no-at-sign'') example_in_flight) = NoConfig"
    using domain_extraction[where e = "''no-at-sign''" and s = example_in_flight,
        THEN conjunct2, THEN conjunct2, THEN conjunct1] b 3
    by blast
  have d: "getEmailDomain ''user@'' = None"
    using domain_extraction[where e = "''user@''", THEN conjunct1] unfolding 5 .
  have e: "emailDomain (mount ?st) = None \<and> smtpConfig (mount ?st) = NoConfig"
    using domain_extraction[where st = ?st, THEN conjunct2, THEN conjunct2, THEN conjunct2] d
    unfolding 4 by blast
  show ?thesis using a 2 b c d e by blast
qed

subsection \<open>The timeout, and the claims at example sessions\<close>

lemma step_timeout:
  assumes "timer s = Some (d, st)"
  shows "step Timeout s = run_effects s (snd (timeout_callback d st (s\<lparr>timer := None\<rparr>)))"
proof -
  let ?r = "snd (timeout_callback d st (s\<lparr>timer := None\<rparr>))"
  have "clear_deps ?r = clear_deps s"
    by (simp add: clear_deps_def timeout_callback_frame)
  then have "\<not> clear_fires s ?r" by (simp add: clear_fires_def)
  then show ?thesis using assms by (simp add: step_single settle_one_commit)
qed

lemma step_timeout_detection:
  assumes "timer s = Some (d, st)"
  shows "emailDomain (step Timeout s) = emailDomain (snd (timeout_callback d st (s\<lparr>timer := None\<rparr>)))"
    and "smtpConfig (step Timeout s) = smtpConfig (snd (timeout_callback d st (s\<lparr>timer := None\<rparr>)))"
    and "smtpHost (step Timeout s) = smtpHost (snd (timeout_callback d st (s\<lparr>timer := None\<rparr>)))"
    and "smtpPort (step Timeout s) = smtpPort (snd (timeout_callback d st (s\<lparr>timer := None\<rparr>)))"
proof -
  let ?r = "snd (timeout_callback d st (s\<lparr>timer := None\<rparr>))"
  have "clear_deps ?r = clear_deps s"
    by (simp add: clear_deps_def timeout_callback_frame)
  then have nf: "\<not> clear_fires s ?r" by (simp add: clear_fires_def)
  have dd: "detect_deps ?r = detect_deps s"
    by (simp add: detect_deps_def timeout_callback_frame)
  show "emailDomain (step Timeout s) = emailDomain ?r"
    unfolding step_timeout[OF assms] detection_run_effects(1)[OF nf] using dd by simp
  show "smtpConfig (step Timeout s) = smtpConfig ?r"
    unfolding step_timeout[OF assms] detection_run_effects(2)[OF nf] using dd by simp
  show "smtpHost (step Timeout s) = smtpHost ?r"
    unfolding step_timeout[OF assms] run_effects_fields(3)[OF nf] by simp
  show "smtpPort (step Timeout s) = smtpPort ?r"
    unfolding step_timeout[OF assms] run_effects_fields(4)[OF nf] by simp
qed

lemma getEmailDomain_nonempty: "getEmailDomain e = Some d \<Longrightarrow> d \<noteq> []"
  using getEmailDomain_truthy[of e] by (auto simp add: falsy_def)

text \<open>
  For every domain whose table read is \<open>undefined\<close> the detection does what the
  comment in the \<open>else\<close> branch says: after the edit and the timeout the profile is
  cleared and the host and port inputs are rendered; they are emptied when no host is
  persisted and keep their current values otherwise.
\<close>

lemma unknown_domain_detected:
  assumes "e \<noteq> email s" and "getEmailDomain e = Some d" and "SMTP_CONFIGS d = Undefined"
  shows "emailDomain (step Timeout (step (ChangeEmail e) s)) = Some d
       \<and> smtpConfig (step Timeout (step (ChangeEmail e) s)) = NoConfig
       \<and> host_port_editable (step Timeout (step (ChangeEmail e) s))
       \<and> (if falsy (Option.bind (settings s) smtp_host)
          then smtpHost (step Timeout (step (ChangeEmail e) s)) = Some []
             \<and> smtpPort (step Timeout (step (ChangeEmail e) s)) = []
          else smtpHost (step Timeout (step (ChangeEmail e) s)) = smtpHost s
             \<and> smtpPort (step Timeout (step (ChangeEmail e) s)) = smtpPort s)"
proof -
  let ?s1 = "step (ChangeEmail e) s"
  have t: "timer ?s1 = Some (d, settings s)"
    using assms(2) by (simp add: step_change_email(3)[OF assms(1)])
  have hp: "smtpHost ?s1 = smtpHost s" "smtpPort ?s1 = smtpPort s"
    by (simp_all add: step_change_email[OF assms(1)])
  have ne: "d \<noteq> []" using assms(2) by (rule getEmailDomain_nonempty)
  show ?thesis
    using assms(3) hp ne
    by (simp add: step_timeout_detection[OF t] timeout_callback_def host_port_editable_def
        smtp_section_rendered_def falsy_def)
qed

text \<open>
  Claim C9 at the address \<open>a@constructor\<close>, typed into a page without settings. The
  domain \<open>constructor\<close> is no key of the provider table, yet the table read returns
  the inherited \<open>Object\<close>, so the timeout callback takes the branch of a listed provider
  and throws a \<open>TypeError\<close>. Afterwards the profile state is an object and not cleared,
  the host is \<open>undefined\<close>, and the host and port inputs are not rendered.
\<close>

theorem constructor_domain_not_cleared:
  "getEmailDomain ''a@constructor'' = Some ''constructor''
   \<and> timer (step (ChangeEmail ''a@constructor'') (mount None)) = Some (''constructor'', None)
   \<and> fst (timeout_callback ''constructor'' None
            (step (ChangeEmail ''a@constructor'') (mount None))) = Some TypeError
   \<and> smtpConfig (step Timeout (step (ChangeEmail ''a@constructor'') (mount None))) = OtherObject
   \<and> smtpHost (step Timeout (step (ChangeEmail ''a@constructor'') (mount None))) = None
   \<and> \<not> host_port_editable (step Timeout (step (ChangeEmail ''a@constructor'') (mount None)))"
  by code_simp

text \<open>
  Claim C1 at the session that tests, edits and tests again, the second click being
  rendered before the router's update. Before that click \<open>testPassed\<close> is false and the
  button disabled. The click is no completion of a test, and no successful and current
  outcome has been recorded since the edit; yet after it \<open>testPassed\<close> is true and the
  Save Settings button enabled, with the port edited and the second test still in flight:
  the render of \<open>setTestResultValid(true)\<close> found the fetcher idle with the success data of
  the first test. The button stays enabled when the second test then fails.
\<close>

theorem retained_success_enables_save:
  "\<not> testPassed (run (butlast example_retest) (mount None))
   \<and> save_disabled (run (butlast example_retest) (mount None))
   \<and> last example_retest = ClickTest NextRender
   \<and> \<not> test_completes_ok (last example_retest) (run (butlast example_retest) (mount None))
   \<and> \<not> success_recorded example_retest (mount None) False
   \<and> testPassed (run example_retest (mount None))
   \<and> \<not> save_disabled (run example_retest (mount None))
   \<and> smtpPort (run example_retest (mount None)) = ''26''
   \<and> state (testFetcher (run example_retest (mount None))) = Submitting
   \<and> \<not> save_disabled (step (TestFetcher failure_view None) (run example_retest (mount None)))"
  by code_simp

text \<open>
  Claim C2 at the session in which the port is edited while the first test is in flight
  and the response of that test arrives afterwards, a success. On arrival it is ignored:
  both flags stay false. At the next click on the test button, rendered before the
  router's update, that response sets \<open>testPassed\<close>, for a port it was never sent with
  and with the second test still in flight.
\<close>

theorem stale_response_used_at_next_click:
  "\<not> testPassed (run (butlast example_stale) (mount None))
   \<and> \<not> testResultValid (run (butlast example_stale) (mount None))
   \<and> data (testFetcher (run (butlast example_stale) (mount None))) = Some ok
   \<and> last example_stale = ClickTest NextRender
   \<and> testPassed (run example_stale (mount None))
   \<and> smtpPort (run example_stale (mount None)) = ''26''
   \<and> state (testFetcher (run example_stale (mount None))) = Submitting"
  by code_simp

text \<open>With the click rendered together with the router's update neither happens.\<close>

lemma same_render_click_keeps_gate:
  "\<not> testPassed (step (ClickTest SameRender) (run (butlast example_retest) (mount None)))"
  "\<not> testPassed (step (ClickTest SameRender) (run (butlast example_stale) (mount None)))"
  by code_simp+

text \<open>
  At the example session: the clear is requested and succeeds while the test is in
  flight, then the successful response of the test arrives.
\<close>

theorem clear_resets_workflow_witness:
  "state (clearFetcher (step ClickDisable example_in_flight)) \<noteq> Idle
   \<and> state (testFetcher (step ClickDisable example_in_flight)) = Submitting
   \<and> email (step ClickDisable example_in_flight) = ''a@x.org''
   \<and> is_reset (step (ClearFetcher success_view None) (step ClickDisable example_in_flight))
   \<and> testFetcher (step (ClearFetcher success_view None) (step ClickDisable example_in_flight))
       = testFetcher (step ClickDisable example_in_flight)
   \<and> is_reset (step (TestFetcher success_view None)
        (step (ClearFetcher success_view None) (step ClickDisable example_in_flight)))"
proof -
  have 1: "state (clearFetcher (step ClickDisable example_in_flight)) \<noteq> Idle" by code_simp
  have 2: "state success_view = Idle" by (simp add: success_view_def)
  have 3: "data_success success_view" by (simp add: success_view_def data_success_def ok_def)
  have 4: "state (testFetcher (step ClickDisable example_in_flight)) = Submitting" by code_simp
  have 5: "email (step ClickDisable example_in_flight) = ''a@x.org''" by code_simp
  from clear_resets_workflow[where s = "step ClickDisable example_in_flight"
      and f = success_view and st = None and f' = success_view and st' = None, OF 1 2 3] 1 4 5
  show ?thesis by blast
qed

text \<open>
  At the example row: a Gmail address saved with another host and port. The profile is
  Gmail's, the fields are the row's.
\<close>

theorem mount_detects_synchronously_witness:
  "emailDomain (mount (Some example_row)) = Some ''gmail.com''
   \<and> smtpConfig (mount (Some example_row)) =
       Matched \<lparr>host = ''smtp.gmail.com'', port = 587, secure = True,
         hint = ''For Gmail, use an App Password instead of your regular password. Go to Google Account -> Security -> 2-Step Verification -> App passwords.''\<rparr>
   \<and> smtpHost (mount (Some example_row)) = Some ''smtp.relay.example''
   \<and> smtpPort (mount (Some example_row)) = ''465''
   \<and> smtp_section_rendered (mount (Some example_row))"
proof -
  let ?st = "Some example_row"
  have 0: "\<forall>n. Option.bind ?st smtp_port = Some n \<longrightarrow> isSafeInteger n"
    by (simp add: example_row_def isSafeInteger_def)
  have 1: "getEmailDomain (or_empty (Option.bind ?st notification_email)) = Some ''gmail.com''"
    by code_simp
  have 2: "or_empty (Option.bind ?st smtp_host) = ''smtp.relay.example''" by code_simp
  have 3: "or_empty (map_option toString (Option.bind ?st smtp_port)) = ''465''" by code_simp
  have 4: "SMTP_CONFIGS ''gmail.com'' = Profile \<lparr>host = ''smtp.gmail.com'', port = 587,
      secure = True,
      hint = ''For Gmail, use an App Password instead of your regular password. Go to Google Account -> Security -> 2-Step Verification -> App passwords.''\<rparr>"
    by (simp add: SMTP_CONFIGS_def)
  from mount_detects_synchronously[OF 0]
  show ?thesis unfolding 1 2 3 by (simp add: 4)
qed

end
